theory Spec2Isabelle
  imports Complex_Main "HOL-Library.AList"
begin

section \<open>Python values and dictionaries\<close>

text \<open>
  The values that \<^verbatim>\<open>response.json()\<close> can hand to the library: \<^verbatim>\<open>None\<close>, booleans,
  integers, floats, strings, lists and dictionaries with string keys. The library does no
  arithmetic on a float, it only tests its type, so the payload of a float is a type
  parameter. A dictionary is an association list in insertion order; a Python \<^verbatim>\<open>dict\<close>
  never holds a key twice, which is the hypothesis \<open>distinct (map fst d)\<close> wherever it matters.
\<close>

datatype 'f pyval =
    PNone
  | PBool bool
  | PInt int
  | PFloat 'f
  | PStr string
  | PList "'f pyval list"
  | PDict "(string \<times> 'f pyval) list"

text \<open>The exceptions that the modelled code paths can raise.\<close>

datatype pyerror =
    AssertionError
  | IndexError
  | ValueError
  | KeyError
  | TypeError
  | AttributeError
  | RequestError

text \<open>
  \<^verbatim>\<open>dict(items)\<close> and \<^verbatim>\<open>out.update(d)\<close>: the pairs are stored one after the other; a key
  that is already present keeps its position and takes the new value.
\<close>

definition py_dict :: "('k \<times> 'v) list \<Rightarrow> ('k \<times> 'v) list" where
  "py_dict items = foldl (\<lambda>out (k, v). AList.update k v out) [] items"

definition dict_update :: "('k \<times> 'v) list \<Rightarrow> ('k \<times> 'v) list \<Rightarrow> ('k \<times> 'v) list" where
  "dict_update out d = foldl (\<lambda>acc (k, v). AList.update k v acc) out d"

definition is_mapping :: "'f pyval \<Rightarrow> bool" where
  "is_mapping v = (case v of PDict _ \<Rightarrow> True | _ \<Rightarrow> False)"

section \<open>Helper functions\<close>

text \<open>\<^verbatim>\<open>all_eq\<close>: \<^verbatim>\<open>len(set(iterator)) <= 1\<close>.\<close>

definition all_eq :: "'a list \<Rightarrow> bool" where
  "all_eq iterator = (length (remdups iterator) \<le> 1)"

text \<open>\<^verbatim>\<open>merge_dicts\<close>: update an empty dictionary with each dictionary in turn.\<close>

definition merge_dicts :: "('k \<times> 'v) list list \<Rightarrow> ('k \<times> 'v) list" where
  "merge_dicts dicts = foldl dict_update [] dicts"

text \<open>
  \<^verbatim>\<open>flatten\<close>. The loop over \<^verbatim>\<open>d.items()\<close> is \<open>flatten_items\<close>, which collects the list
  \<^verbatim>\<open>items\<close>; a value that is a mapping contributes the items of its own flattening (a
  dictionary, hence \<open>py_dict\<close>), any other value contributes one pair. \<^verbatim>\<open>if parent_key\<close>
  tests that the string is not empty.
\<close>

function flatten_items ::
  "(string \<times> 'f pyval) list \<Rightarrow> string \<Rightarrow> string \<Rightarrow> (string \<times> 'f pyval) list" where
  "flatten_items [] parent_key sep = []"
| "flatten_items ((k, v) # rest) parent_key sep =
     (let new_key = (if parent_key \<noteq> [] then parent_key @ sep @ k else k) in
      (case v of
         PDict sub \<Rightarrow> py_dict (flatten_items sub new_key sep)
       | _ \<Rightarrow> [(new_key, v)]) @ flatten_items rest parent_key sep)"
  by pat_completeness auto
termination
  by (relation "measure (\<lambda>(d, p, s). size (PDict d))") auto

definition flatten ::
  "(string \<times> 'f pyval) list \<Rightarrow> string \<Rightarrow> string \<Rightarrow> (string \<times> 'f pyval) list" where
  "flatten d parent_key sep = py_dict (flatten_items d parent_key sep)"

section \<open>Date validation\<close>

text \<open>
  \<^verbatim>\<open>valid_date\<close> is true when \<^verbatim>\<open>datetime.strptime(date_text, "%Y-%m-%d")\<close> returns and
  false when it raises. The standard library compiles the format to the regular expression
  \<^verbatim>\<open>(\d\d\d\d)-(1[0-2]|0[1-9]|[1-9])-(3[0-1]|[1-2]\d|0[1-9]|[1-9]| [1-9])\<close>, matches it at
  the start of the text, rejects text left over after the match, and then builds the date,
  which fails for year 0 and for a day the month does not have. The alternatives of a group
  are tried in the order written. The month is followed by a hyphen, so an alternative that
  matched two digits is never given up for the one-digit alternative: the character after
  the single digit would be a digit. Strings are taken over the ASCII digits.
\<close>

definition is_digit :: "char \<Rightarrow> bool" where
  "is_digit c = (c \<in> set ''0123456789'')"

definition is_digit19 :: "char \<Rightarrow> bool" where
  "is_digit19 c = (c \<in> set ''123456789'')"

definition digit_val :: "char \<Rightarrow> nat" where
  "digit_val c = of_char c - 48"

fun match_month :: "string \<Rightarrow> (nat \<times> string) option" where
  "match_month (a # b # rest) =
     (if a = CHR ''1'' \<and> b \<in> set ''012'' then Some (10 + digit_val b, rest)
      else if a = CHR ''0'' \<and> is_digit19 b then Some (digit_val b, rest)
      else if is_digit19 a then Some (digit_val a, b # rest)
      else None)"
| "match_month [a] = (if is_digit19 a then Some (digit_val a, []) else None)"
| "match_month [] = None"

fun match_day :: "string \<Rightarrow> (nat \<times> string) option" where
  "match_day (a # b # rest) =
     (if a = CHR ''3'' \<and> b \<in> set ''01'' then Some (30 + digit_val b, rest)
      else if a \<in> set ''12'' \<and> is_digit b then Some (10 * digit_val a + digit_val b, rest)
      else if a = CHR ''0'' \<and> is_digit19 b then Some (digit_val b, rest)
      else if is_digit19 a then Some (digit_val a, b # rest)
      else if a = CHR '' '' \<and> is_digit19 b then Some (digit_val b, rest)
      else None)"
| "match_day [a] = (if is_digit19 a then Some (digit_val a, []) else None)"
| "match_day [] = None"

definition is_leap :: "nat \<Rightarrow> bool" where
  "is_leap y = (y mod 4 = 0 \<and> (y mod 100 \<noteq> 0 \<or> y mod 400 = 0))"

definition days_in_month :: "nat \<Rightarrow> nat \<Rightarrow> nat" where
  "days_in_month y m =
     (if m = 2 then (if is_leap y then 29 else 28)
      else if m \<in> {4, 6, 9, 11} then 30 else 31)"

definition strptime_ok :: "string \<Rightarrow> bool" where
  "strptime_ok s =
     (case s of
        y1 # y2 # y3 # y4 # h1 # rest \<Rightarrow>
          if is_digit y1 \<and> is_digit y2 \<and> is_digit y3 \<and> is_digit y4 \<and> h1 = CHR ''-'' then
            (case match_month rest of
               Some (m, h2 # rest2) \<Rightarrow>
                 if h2 = CHR ''-'' then
                   (case match_day rest2 of
                      Some (d, rest3) \<Rightarrow>
                        let y = 1000 * digit_val y1 + 100 * digit_val y2
                                + 10 * digit_val y3 + digit_val y4
                        in rest3 = [] \<and> 1 \<le> y \<and> d \<le> days_in_month y m
                    | None \<Rightarrow> False)
                 else False
             | _ \<Rightarrow> False)
          else False
      | _ \<Rightarrow> False)"

definition valid_date :: "string \<Rightarrow> bool" where
  "valid_date date_text = strptime_ok date_text"

section \<open>The session and its requests\<close>

text \<open>
  The HTTP collaborator is outside the library. It is a pair of functions from the request
  to what the library gets back, and the requests issued so far are a list that each call
  extends. For a time series the function gives
  \<^verbatim>\<open>response.json().get('data').get('values')\<close> as a list of (millisecond timestamp,
  value) points, or the exception raised on the way. For the metrics it gives
  \<^verbatim>\<open>response.json()\<close>.

  numpy is outside the library as well. A value of a series is taken as the element that
  \<^verbatim>\<open>np.asarray\<close> makes of it (an \<^verbatim>\<open>int64\<close> when every number of the series is an
  integer, a \<^verbatim>\<open>float64\<close> otherwise); the type of these elements is a parameter with a
  zero, the element of \<^verbatim>\<open>np.zeros\<close>. \<open>float64\<close> is the conversion that
  \<^verbatim>\<open>np.concatenate\<close> applies to every element of a column that it joins to an array of
  zeros: the result is a \<^verbatim>\<open>float64\<close> array, so an integer beyond \<open>2^53\<close> comes back
  rounded, and an element that is a float already is unchanged.
\<close>

record request =
  http_method :: string
  url :: string
  params :: "(string \<times> string option) list"

record ('f, 'v) session =
  timeseries_values :: "request \<Rightarrow> pyerror + (int \<times> 'v) list"
  metrics_json :: "request \<Rightarrow> pyerror + 'f pyval"
  float64 :: "'v \<Rightarrow> 'v"

definition BASE_URL :: string where
  "BASE_URL = ''https://data.messari.io''"

definition timeseries_request :: "string \<Rightarrow> string \<Rightarrow> (string \<times> string option) list \<Rightarrow> request" where
  "timeseries_request asset_key metric_id ps =
     \<lparr>http_method = ''GET'',
      url = BASE_URL @ ''/api/v1/assets/'' @ asset_key @ ''/metrics/'' @ metric_id @ ''/time-series'',
      params = ps\<rparr>"

definition metrics_request :: "string \<Rightarrow> string option \<Rightarrow> request" where
  "metrics_request asset_key field_list =
     \<lparr>http_method = ''GET'',
      url = BASE_URL @ ''/api/v1/assets/'' @ asset_key @ ''/metrics'',
      params = [(''fields'', field_list)]\<rparr>"

definition get_asset_timeseries ::
  "('f, 'v) session \<Rightarrow> string \<Rightarrow> string \<Rightarrow> (string \<times> string option) list \<Rightarrow> request list
    \<Rightarrow> (pyerror + (int \<times> 'v) list) \<times> request list" where
  "get_asset_timeseries sess asset_key metric_id ps sent =
     (let req = timeseries_request asset_key metric_id ps
      in (timeseries_values sess req, sent @ [req]))"

definition get_asset_metrics ::
  "('f, 'v) session \<Rightarrow> string \<Rightarrow> string option \<Rightarrow> request list
    \<Rightarrow> (pyerror + 'f pyval) \<times> request list" where
  "get_asset_metrics sess asset_key field_list sent =
     (let req = metrics_request asset_key field_list
      in (metrics_json sess req, sent @ [req]))"

section \<open>Price history\<close>

text \<open>
  What the code reads from its environment: today's date and the date 365 days earlier, both
  already formatted with \<^verbatim>\<open>DATE_FMT\<close>, and
  \<^verbatim>\<open>datetime.fromtimestamp(seconds).strftime(DATE_FMT)\<close>, which depends on the local time
  zone and raises outside the years that \<^verbatim>\<open>datetime\<close> supports.
\<close>

record env =
  today :: string
  year_ago :: string
  fromtimestamp :: "int \<Rightarrow> pyerror + string"

text \<open>\<^verbatim>\<open>not x\<close> for an argument that is \<^verbatim>\<open>None\<close> or a string.\<close>

definition py_not :: "string option \<Rightarrow> bool" where
  "py_not x = (case x of None \<Rightarrow> True | Some s \<Rightarrow> s = [])"

text \<open>The keyword arguments of the time-series request, which become its query parameters.\<close>

definition price_params :: "string \<Rightarrow> string \<Rightarrow> string \<Rightarrow> string \<Rightarrow> (string \<times> string option) list" where
  "price_params columns interval start_date end_date =
     [(''columns'', Some columns), (''interval'', Some interval),
      (''start'', Some start_date), (''end'', Some end_date)]"

definition get_asset_price_history ::
  "('f, 'v) session \<Rightarrow> env \<Rightarrow> string \<Rightarrow> string option \<Rightarrow> string option \<Rightarrow> string \<Rightarrow> string
    \<Rightarrow> request list \<Rightarrow> (pyerror + (int \<times> 'v) list) \<times> request list" where
  "get_asset_price_history sess e asset_key start_date end_date columns interval sent =
     (let end_date' = (if py_not end_date then today e else the end_date);
          start_date' = (if py_not start_date then year_ago e else the start_date)
      in if \<not> valid_date start_date' then (Inl AssertionError, sent)
         else if \<not> valid_date end_date' then (Inl AssertionError, sent)
         else get_asset_timeseries sess asset_key ''price''
                (price_params columns interval start_date' end_date') sent)"

text \<open>
  \<^verbatim>\<open>asset_data\<close>: the price history of each asset in turn; the first exception ends the
  loop.
\<close>

fun asset_data ::
  "('f, 'v) session \<Rightarrow> env \<Rightarrow> string list \<Rightarrow> string option \<Rightarrow> string option \<Rightarrow> string \<Rightarrow> string
    \<Rightarrow> request list \<Rightarrow> (pyerror + (int \<times> 'v) list list) \<times> request list" where
  "asset_data sess e [] start_date end_date columns interval sent = (Inr [], sent)"
| "asset_data sess e (key # keys) start_date end_date columns interval sent =
     (case get_asset_price_history sess e key start_date end_date columns interval sent of
        (Inl err, sent') \<Rightarrow> (Inl err, sent')
      | (Inr ts, sent') \<Rightarrow>
          (case asset_data sess e keys start_date end_date columns interval sent' of
             (Inl err, sent'') \<Rightarrow> (Inl err, sent'')
           | (Inr rest, sent'') \<Rightarrow> (Inr (ts # rest), sent'')))"

text \<open>
  \<^verbatim>\<open>int(t/1000)\<close> truncates towards zero. The timestamps are integers below \<open>2^53\<close> in
  size, on which the division in double precision followed by the truncation is the
  integer operation.
\<close>

definition to_seconds :: "int \<Rightarrow> int" where
  "to_seconds t = (if 0 \<le> t then t div 1000 else - ((- t) div 1000))"

fun format_dates :: "env \<Rightarrow> int list \<Rightarrow> pyerror + string list" where
  "format_dates e [] = Inr []"
| "format_dates e (t # ts) =
     (case fromtimestamp e (to_seconds t) of
        Inl err \<Rightarrow> Inl err
      | Inr s \<Rightarrow> (case format_dates e ts of Inl err \<Rightarrow> Inl err | Inr ss \<Rightarrow> Inr (s # ss)))"

text \<open>\<^verbatim>\<open>max(lens)\<close> raises \<^verbatim>\<open>ValueError\<close> on an empty list.\<close>

definition py_max :: "nat list \<Rightarrow> pyerror + nat" where
  "py_max lens = (if lens = [] then Inl ValueError else Inr (fold max (tl lens) (hd lens)))"

text \<open>
  The table. \<^verbatim>\<open>pd.DataFrame(data, index=dates)\<close> with a dictionary of one-dimensional
  arrays takes each array as a column: an array of length one is repeated to the length of
  the index, and then an array whose length is not the length of the index raises
  \<^verbatim>\<open>ValueError\<close>.
\<close>

record 'v dataframe =
  df_index :: "string list"
  df_columns :: "(string \<times> 'v list) list"

definition maybe_repeat :: "'v list \<Rightarrow> nat \<Rightarrow> 'v list" where
  "maybe_repeat arr n = (if length arr = 1 \<and> n \<noteq> 1 then replicate n (hd arr) else arr)"

definition pd_DataFrame :: "(string \<times> 'v list) list \<Rightarrow> string list \<Rightarrow> pyerror + 'v dataframe" where
  "pd_DataFrame data idx =
     (let cols = map (\<lambda>(k, v). (k, maybe_repeat v (length idx))) data
      in if list_all (\<lambda>(k, v). length v = length idx) cols
         then Inr \<lparr>df_index = idx, df_columns = cols\<rparr>
         else Inl ValueError)"

text \<open>
  The body of \<^verbatim>\<open>get_assets_price_history_pd\<close> after the requests (from
  \<^verbatim>\<open>time = np.asarray(asset_data[0])[:, 0]\<close> on). \<^verbatim>\<open>asset_data[0]\<close> raises
  \<^verbatim>\<open>IndexError\<close> on an empty list, and so does the column slice \<^verbatim>\<open>[:, 0]\<close> or
  \<^verbatim>\<open>[:, 1]\<close> of the array of an empty series, which has one dimension.
\<close>

text \<open>
  The dictionary comprehension of the padding,
  \<^verbatim>\<open>{k: np.concatenate([np.zeros(max_len - len(v)), v]) for k, v in data.items()}\<close>: every
  column, also one of full length, becomes a \<^verbatim>\<open>float64\<close> array; \<open>to_float\<close> is the
  conversion of an element.
\<close>

definition pad_columns ::
  "('v \<Rightarrow> 'v) \<Rightarrow> nat \<Rightarrow> (string \<times> ('v::zero) list) list \<Rightarrow> (string \<times> 'v list) list" where
  "pad_columns to_float max_len data =
     map (\<lambda>(k, v). (k, replicate (max_len - length v) 0 @ map to_float v)) data"

text \<open>
  The last part of the function, from \<^verbatim>\<open>lens\<close> to the construction of the table: the
  columns are padded when their lengths are not all equal.
\<close>

definition pad_and_frame ::
  "('v \<Rightarrow> 'v) \<Rightarrow> (string \<times> ('v::zero) list) list \<Rightarrow> string list \<Rightarrow> pyerror + 'v dataframe" where
  "pad_and_frame to_float data dates =
     (let lens = map (\<lambda>x. length x) (map snd data)
      in (case py_max lens of
            Inl err \<Rightarrow> Inl err
          | Inr max_len \<Rightarrow>
              pd_DataFrame
                (if \<not> all_eq lens then pad_columns to_float max_len data else data) dates))"

definition align_price_history ::
  "('v \<Rightarrow> 'v) \<Rightarrow> env \<Rightarrow> string list \<Rightarrow> (int \<times> ('v::zero)) list list
    \<Rightarrow> pyerror + 'v dataframe" where
  "align_price_history to_float e list_of_assets series =
     (case series of
        [] \<Rightarrow> Inl IndexError
      | first # _ \<Rightarrow>
          if first = [] then Inl IndexError
          else
            (case format_dates e (map fst first) of
               Inl err \<Rightarrow> Inl err
             | Inr dates \<Rightarrow>
                 if [] \<in> set (map snd (zip list_of_assets series)) then Inl IndexError
                 else
                   let prep_data = map (\<lambda>x. [(fst x, map snd (snd x))]) (zip list_of_assets series);
                       data = merge_dicts prep_data
                   in pad_and_frame to_float data dates))"

definition get_assets_price_history_pd ::
  "('f, 'v::zero) session \<Rightarrow> env \<Rightarrow> string list \<Rightarrow> string option \<Rightarrow> string option \<Rightarrow> string
    \<Rightarrow> string \<Rightarrow> request list \<Rightarrow> (pyerror + 'v dataframe) \<times> request list" where
  "get_assets_price_history_pd sess e list_of_assets start_date end_date columns interval sent =
     (case asset_data sess e list_of_assets start_date end_date columns interval sent of
        (Inl err, sent') \<Rightarrow> (Inl err, sent')
      | (Inr series, sent') \<Rightarrow>
          (align_price_history (float64 sess) e list_of_assets series, sent'))"

section \<open>Metrics\<close>

text \<open>\<^verbatim>\<open>metrics['data']\<close>: a missing key raises \<^verbatim>\<open>KeyError\<close>, a value that is not a
  dictionary cannot be indexed by a string.\<close>

definition py_getitem :: "'f pyval \<Rightarrow> string \<Rightarrow> pyerror + 'f pyval" where
  "py_getitem m k =
     (case m of
        PDict d \<Rightarrow> (case map_of d k of Some v \<Rightarrow> Inr v | None \<Rightarrow> Inl KeyError)
      | _ \<Rightarrow> Inl TypeError)"

text \<open>\<^verbatim>\<open>isinstance(v, int)\<close> holds of integers and of booleans, \<^verbatim>\<open>bool\<close> being a subclass of
  \<^verbatim>\<open>int\<close>; \<^verbatim>\<open>isinstance(v, float)\<close> holds of floats only.\<close>

definition isinstance_int :: "'f pyval \<Rightarrow> bool" where
  "isinstance_int v = (case v of PInt _ \<Rightarrow> True | PBool _ \<Rightarrow> True | _ \<Rightarrow> False)"

definition isinstance_float :: "'f pyval \<Rightarrow> bool" where
  "isinstance_float v = (case v of PFloat _ \<Rightarrow> True | _ \<Rightarrow> False)"

text \<open>The two dictionary comprehensions \<^verbatim>\<open>filtered\<close> and \<^verbatim>\<open>d\<close> of
  \<^verbatim>\<open>get_assets_metrics_pd\<close>.\<close>

definition numeric_filter :: "(string \<times> 'f pyval) list \<Rightarrow> (string \<times> 'f pyval) list" where
  "numeric_filter flattened =
     (let filtered = filter (\<lambda>(k, v). v \<noteq> PNone) flattened
      in filter (\<lambda>(k, v). isinstance_int v \<or> isinstance_float v) filtered)"

text \<open>
  The loop of \<^verbatim>\<open>get_assets_metrics_pd\<close> with its accumulator \<^verbatim>\<open>D\<close>. \<^verbatim>\<open>D[asset]\<close> holds what
  is given to \<^verbatim>\<open>pd.Series\<close>; the table is built by pandas from \<^verbatim>\<open>D\<close>, one column per asset,
  and the model returns \<^verbatim>\<open>D\<close>. \<^verbatim>\<open>flatten(data)\<close> calls \<^verbatim>\<open>data.items()\<close>, which only a
  dictionary has.
\<close>

fun metrics_loop ::
  "('f, 'v) session \<Rightarrow> bool \<Rightarrow> string list \<Rightarrow> (string \<times> 'f pyval) list \<Rightarrow> request list
    \<Rightarrow> (pyerror + (string \<times> 'f pyval) list) \<times> request list" where
  "metrics_loop sess flatten_df [] D sent = (Inr D, sent)"
| "metrics_loop sess flatten_df (asset # rest) D sent =
     (case get_asset_metrics sess asset None sent of
        (Inl err, sent') \<Rightarrow> (Inl err, sent')
      | (Inr metrics, sent') \<Rightarrow>
          (case py_getitem metrics ''data'' of
             Inl err \<Rightarrow> (Inl err, sent')
           | Inr data \<Rightarrow>
               if flatten_df then
                 (case data of
                    PDict dd \<Rightarrow>
                      metrics_loop sess flatten_df rest
                        (AList.update asset (PDict (numeric_filter (flatten dd [] ''_''))) D) sent'
                  | _ \<Rightarrow> (Inl AttributeError, sent'))
               else metrics_loop sess flatten_df rest (AList.update asset data D) sent'))"

definition get_assets_metrics_pd ::
  "('f, 'v) session \<Rightarrow> string list option \<Rightarrow> bool \<Rightarrow> request list
    \<Rightarrow> (pyerror + (string \<times> 'f pyval) list) \<times> request list" where
  "get_assets_metrics_pd sess list_of_assets flatten_df sent =
     (case list_of_assets of
        None \<Rightarrow> (Inl TypeError, sent)
      | Some assets \<Rightarrow> metrics_loop sess flatten_df assets [] sent)"

section \<open>Concrete environments and sessions\<close>

text \<open>
  An environment whose clock shows 1 October 2021 in the UTC time zone: the date of a
  timestamp is computed from the number of days since 1 January 1970, and years outside
  1 to 9999 are refused as \<^verbatim>\<open>datetime\<close> refuses them.
\<close>

definition digit_char :: "nat \<Rightarrow> char" where
  "digit_char n = ''0123456789'' ! n"

definition pad2 :: "nat \<Rightarrow> string" where
  "pad2 n = [digit_char (n div 10 mod 10), digit_char (n mod 10)]"

definition pad4 :: "nat \<Rightarrow> string" where
  "pad4 n = [digit_char (n div 1000 mod 10), digit_char (n div 100 mod 10),
             digit_char (n div 10 mod 10), digit_char (n mod 10)]"

definition utc_date :: "int \<Rightarrow> pyerror + string" where
  "utc_date secs =
     (let z = secs div 86400 + 719468;
          era = z div 146097;
          doe = z - era * 146097;
          yoe = (doe - doe div 1460 + doe div 36524 - doe div 146096) div 365;
          doy = doe - (365 * yoe + yoe div 4 - yoe div 100);
          mp = (5 * doy + 2) div 153;
          d = doy - (153 * mp + 2) div 5 + 1;
          m = (if mp < 10 then mp + 3 else mp - 9);
          y = yoe + era * 400 + (if m \<le> 2 then 1 else 0)
      in if 1 \<le> y \<and> y \<le> 9999
         then Inr (pad4 (nat y) @ ''-'' @ pad2 (nat m) @ ''-'' @ pad2 (nat d))
         else Inl ValueError)"

definition utc_env :: env where
  "utc_env = \<lparr>today = ''2021-10-01'', year_ago = ''2020-10-01'', fromtimestamp = utc_date\<rparr>"

text \<open>
  The values of the sessions are real numbers, held as floats, so that \<open>float64\<close> leaves
  them as they are. The first session knows the assets \<^verbatim>\<open>A\<close> and \<^verbatim>\<open>B\<close> of the alignment
  scenario, an asset \<^verbatim>\<open>C\<close> with a history as long as that of \<^verbatim>\<open>A\<close>, and the metrics of
  three assets: \<^verbatim>\<open>btc\<close> with the record of the filter scenario, \<^verbatim>\<open>eth\<close> with a record
  that holds a boolean, a float, a string and an empty list, and \<^verbatim>\<open>ada\<close> with a boolean
  and a string.
\<close>

definition scenario_session :: "(real, real) session" where
  "scenario_session =
     \<lparr>timeseries_values = (\<lambda>req.
        if url req = ''https://data.messari.io/api/v1/assets/A/metrics/price/time-series''
        then Inr [(0, 10), (86400000, 20)]
        else if url req = ''https://data.messari.io/api/v1/assets/B/metrics/price/time-series''
        then Inr [(86400000, 5)]
        else if url req = ''https://data.messari.io/api/v1/assets/C/metrics/price/time-series''
        then Inr [(0, 7), (86400000, 8)]
        else Inl RequestError),
      metrics_json = (\<lambda>req.
        if url req = ''https://data.messari.io/api/v1/assets/btc/metrics''
        then Inr (PDict [(''data'',
               PDict [(''market_data'',
                  PDict [(''price_usd'', PInt 50000), (''volume'', PNone)])])])
        else if url req = ''https://data.messari.io/api/v1/assets/eth/metrics''
        then Inr (PDict [(''data'',
               PDict [(''symbol'', PStr ''ETH''),
                      (''misc_data'', PDict [(''private'', PBool True), (''tags'', PList [])]),
                      (''roi'', PFloat (3 / 2))])])
        else if url req = ''https://data.messari.io/api/v1/assets/ada/metrics''
        then Inr (PDict [(''data'',
               PDict [(''is_listed'', PBool True), (''name'', PStr ''Cardano'')])])
        else Inl RequestError),
      float64 = (\<lambda>x. x)\<rparr>"

text \<open>A session in which the first asset of the list has the shorter history.\<close>

definition short_first_session :: "(real, real) session" where
  "short_first_session =
     \<lparr>timeseries_values = (\<lambda>req.
        if url req = ''https://data.messari.io/api/v1/assets/A/metrics/price/time-series''
        then Inr [(86400000, 10)]
        else if url req = ''https://data.messari.io/api/v1/assets/B/metrics/price/time-series''
        then Inr [(0, 5), (86400000, 6)]
        else Inl RequestError),
      metrics_json = (\<lambda>req. Inl RequestError),
      float64 = (\<lambda>x. x)\<rparr>"

section \<open>Key paths and re-nesting\<close>

text \<open>
  The specification describes the key of a leaf as the separator-joined path of its
  ancestor keys. \<open>leaf_paths\<close> lists the values of a nested mapping that are not mappings,
  each with the path of keys that leads to it, in the order of traversal; \<open>join_path\<close> is
  \<^verbatim>\<open>sep.join(path)\<close>.
\<close>

fun join_path :: "string \<Rightarrow> string list \<Rightarrow> string" where
  "join_path sep [] = []"
| "join_path sep [k] = k"
| "join_path sep (k # k' # ks) = k @ sep @ join_path sep (k' # ks)"

function leaf_paths :: "(string \<times> 'f pyval) list \<Rightarrow> (string list \<times> 'f pyval) list" where
  "leaf_paths [] = []"
| "leaf_paths ((k, v) # rest) =
     (case v of
        PDict sub \<Rightarrow> map (\<lambda>(p, x). (k # p, x)) (leaf_paths sub)
      | _ \<Rightarrow> [([k], v)]) @ leaf_paths rest"
  by pat_completeness auto
termination
  by (relation "measure (\<lambda>d. size (PDict d))") auto

text \<open>
  The mappings stored under an empty key at the top level: \<^verbatim>\<open>flatten\<close> tests
  \<^verbatim>\<open>if parent_key\<close>, so below such a key it builds the keys as at the top level.
\<close>

definition no_empty_mapping_key :: "(string \<times> 'f pyval) list \<Rightarrow> bool" where
  "no_empty_mapping_key d = list_all (\<lambda>(k, v). is_mapping v \<longrightarrow> k \<noteq> []) d"

text \<open>
  Re-nesting, in the specification's words "by splitting each key on the separator":
  \<open>split_on\<close> is \<^verbatim>\<open>key.split(c)\<close> for a separator of one character, \<open>nest_insert\<close> stores a
  value under a path, creating the mappings on the way (a value found on the way that is not
  a mapping is replaced), and \<open>unflatten\<close> stores the entries of the flattened mapping one
  after the other.
\<close>

fun split_on :: "char \<Rightarrow> string \<Rightarrow> string list" where
  "split_on c [] = [[]]"
| "split_on c (x # xs) =
     (if x = c then [] # split_on c xs
      else (case split_on c xs of p # ps \<Rightarrow> (x # p) # ps | [] \<Rightarrow> [[x]]))"

fun nest_insert ::
  "string list \<Rightarrow> 'f pyval \<Rightarrow> (string \<times> 'f pyval) list \<Rightarrow> (string \<times> 'f pyval) list" where
  "nest_insert [] v d = d"
| "nest_insert [k] v d = AList.update k v d"
| "nest_insert (k # k' # ks) v d =
     AList.update k
       (PDict (nest_insert (k' # ks) v (case map_of d k of Some (PDict sub) \<Rightarrow> sub | _ \<Rightarrow> []))) d"

definition unflatten :: "char \<Rightarrow> (string \<times> 'f pyval) list \<Rightarrow> (string \<times> 'f pyval) list" where
  "unflatten c flat = foldl (\<lambda>out (key, v). nest_insert (split_on c key) v out) [] flat"

text \<open>
  The nested mappings of the round trip: keys are distinct at every level (as in any
  dictionary), no key contains the separator, and no mapping inside is empty.
\<close>

function mapping_ok :: "char \<Rightarrow> (string \<times> 'f pyval) list \<Rightarrow> bool" where
  "mapping_ok c [] = True"
| "mapping_ok c ((k, v) # rest) =
     (c \<notin> set k \<and> k \<notin> fst ` set rest
      \<and> (case v of PDict sub \<Rightarrow> sub \<noteq> [] \<and> mapping_ok c sub | _ \<Rightarrow> True)
      \<and> mapping_ok c rest)"
  by pat_completeness auto
termination
  by (relation "measure (\<lambda>(c, d). size (PDict d))") auto

section \<open>Dictionaries built from distinct keys\<close>

lemma update_fresh: "k \<notin> fst ` set al \<Longrightarrow> AList.update k v al = al @ [(k, v)]"
  by (induction al) auto

lemma foldl_update_distinct:
  "distinct (map fst (acc @ xs)) \<Longrightarrow>
     foldl (\<lambda>out (k, v). AList.update k v out) acc xs = acc @ xs"
proof (induction xs arbitrary: acc)
  case Nil
  then show ?case by simp
next
  case (Cons x xs)
  obtain k v where x: "x = (k, v)" by (cases x)
  from Cons.prems x have fresh: "k \<notin> fst ` set acc" by auto
  from Cons.prems x have "distinct (map fst ((acc @ [(k, v)]) @ xs))" by simp
  from Cons.IH [OF this] fresh x show ?case by (simp add: update_fresh)
qed

lemma py_dict_distinct: "distinct (map fst xs) \<Longrightarrow> py_dict xs = xs"
  using foldl_update_distinct [of "[]" xs] by (simp add: py_dict_def)

section \<open>The empty asset list\<close>

text \<open>
  Claim C3. Called with an empty asset list, \<^verbatim>\<open>get_assets_price_history_pd\<close> fails, and it
  fails before any network call: the list of requests issued is the one it was given. The
  failure is the \<^verbatim>\<open>IndexError\<close> of \<^verbatim>\<open>asset_data[0]\<close>, which is what the specification
  files under its kind \<^verbatim>\<open>EmptyInputError\<close>; it does not depend on the session, on the
  environment or on the dates passed, valid or not.
\<close>

theorem empty_asset_list_fails_without_request:
  "get_assets_price_history_pd sess e [] start_date end_date columns interval sent
     = (Inl IndexError, sent)"
  by (simp add: get_assets_price_history_pd_def align_price_history_def)

theorem empty_asset_list_fails_without_request_witness:
  "get_assets_price_history_pd scenario_session utc_env [] (Some ''2021-01-01'')
     (Some ''2021-02-01'') ''close'' ''1d'' [] = (Inl IndexError, [])"
  by (rule empty_asset_list_fails_without_request)

section \<open>Date validation before the request\<close>

text \<open>
  Claim C5, as stated, fails on the empty string: it does not parse as a date, but
  \<^verbatim>\<open>if not start_date\<close> takes it for a missing argument and puts the default in its place,
  so the request is issued.
\<close>

theorem empty_date_string_counterexample:
  "\<not> valid_date '''' \<and>
   get_asset_price_history scenario_session utc_env ''A'' (Some '''') (Some ''2021-02-01'')
       ''close'' ''1d'' []
     = (Inr [(0, 10), (86400000, 20)],
        [timeseries_request ''A'' ''price''
           (price_params ''close'' ''1d'' ''2020-10-01'' ''2021-02-01'')])"
  by (simp add: valid_date_def strptime_ok_def get_asset_price_history_def py_not_def
      utc_env_def is_digit_def is_digit19_def digit_val_def days_in_month_def is_leap_def
      get_asset_timeseries_def timeseries_request_def BASE_URL_def scenario_session_def)

text \<open>
  Claim C5, amended. Whenever a caller-supplied start or end date string is not empty and
  fails the parsing of \<^verbatim>\<open>valid_date\<close>, \<^verbatim>\<open>get_asset_price_history\<close> fails at its assertions
  (\<^verbatim>\<open>AssertionError\<close>, the specification's kind \<^verbatim>\<open>InvalidDateError\<close>) and issues no request;
  so does \<^verbatim>\<open>get_assets_price_history_pd\<close> on a list with at least one asset. The
  \<^verbatim>\<open>assert\<close> statements are taken as executed, which they are unless Python runs with
  optimisation switched on.
\<close>

theorem invalid_date_fails_before_request:
  assumes "start_date = Some s \<or> end_date = Some s" and "s \<noteq> []" and "\<not> valid_date s"
  shows "get_asset_price_history sess e key start_date end_date columns interval sent
           = (Inl AssertionError, sent)
       \<and> get_assets_price_history_pd sess e (key # keys) start_date end_date columns interval sent
           = (Inl AssertionError, sent)"
proof -
  from assms
  have "get_asset_price_history sess e key start_date end_date columns interval sent
          = (Inl AssertionError, sent)"
    by (auto simp: get_asset_price_history_def py_not_def Let_def)
  then show ?thesis by (simp add: get_assets_price_history_pd_def)
qed

theorem invalid_date_fails_before_request_witness:
  "\<not> valid_date ''2021-13-40'' \<and>
   get_asset_price_history scenario_session utc_env ''A'' (Some ''2021-13-40'') None
       ''close'' ''1d'' [] = (Inl AssertionError, []) \<and>
   get_assets_price_history_pd scenario_session utc_env [''A'', ''B''] (Some ''2021-13-40'') None
       ''close'' ''1d'' [] = (Inl AssertionError, [])"
proof -
  have bad: "\<not> valid_date ''2021-13-40''"
    by (simp add: valid_date_def strptime_ok_def is_digit_def is_digit19_def)
  have "Some ''2021-13-40'' = Some ''2021-13-40'' \<or> (None :: string option) = Some ''2021-13-40''"
    by simp
  from invalid_date_fails_before_request [OF this _ bad, of scenario_session utc_env "''A''"
      "''close''" "''1d''" "[]" "[''B'']"] bad
  show ?thesis by simp
qed

text \<open>An empty date string is taken for a missing one, whatever the other arguments are.\<close>

lemma empty_date_string_is_absent:
  "get_asset_price_history sess e key (Some []) end_date columns interval sent
     = get_asset_price_history sess e key None end_date columns interval sent
   \<and> get_asset_price_history sess e key start_date (Some []) columns interval sent
     = get_asset_price_history sess e key start_date None columns interval sent"
  by (simp add: get_asset_price_history_def py_not_def)

section \<open>Flattening a flat mapping\<close>

lemma flatten_items_flat:
  "\<forall>(k, v) \<in> set d. \<not> is_mapping v \<Longrightarrow> flatten_items d [] sep = d"
  by (induction d) (auto simp: is_mapping_def split: pyval.splits)

text \<open>
  Claim C9. Flattening is idempotent on flat inputs: for every dictionary none of whose
  values is a mapping, \<^verbatim>\<open>flatten\<close> (with its default empty parent key, and any separator)
  returns a dictionary equal to its input, with the entries in the same order.
\<close>

theorem flatten_flat_unchanged:
  assumes "distinct (map fst d)" and "\<forall>(k, v) \<in> set d. \<not> is_mapping v"
  shows "flatten d [] sep = d"
  using assms by (simp add: flatten_def flatten_items_flat py_dict_distinct)

theorem flatten_flat_unchanged_witness:
  "flatten [(''a'', PInt 1), (''b_c'', PList []), (''d'', PStr ''x''), (''e'', PNone :: real pyval)]
     [] ''_''
   = [(''a'', PInt 1), (''b_c'', PList []), (''d'', PStr ''x''), (''e'', PNone)]"
  by (rule flatten_flat_unchanged) (simp_all add: is_mapping_def)

section \<open>The numeric filter of the metrics\<close>

lemma numeric_filter_mem:
  "(k, v) \<in> set (numeric_filter xs) \<longleftrightarrow>
     (k, v) \<in> set xs \<and> ((\<exists>n. v = PInt n) \<or> (\<exists>b. v = PBool b) \<or> (\<exists>x. v = PFloat x))"
  by (cases v) (auto simp: numeric_filter_def isinstance_int_def isinstance_float_def)

lemma metrics_loop_row:
  assumes "metrics_loop sess True assets D0 sent = (Inr D, sent')"
    and "metrics_json sess (metrics_request a None) = Inr m"
    and "py_getitem m ''data'' = Inr (PDict d)"
  shows "map_of D a =
    (if a \<in> set assets then Some (PDict (numeric_filter (flatten d [] ''_''))) else map_of D0 a)"
  using assms(1)
proof (induction assets arbitrary: D0 sent)
  case Nil
  then show ?case by simp
next
  case (Cons x rest)
  from Cons.prems obtain m' dd where
    m': "metrics_json sess (metrics_request x None) = Inr m'"
    and dd: "py_getitem m' ''data'' = Inr (PDict dd)"
    and rest: "metrics_loop sess True rest
        (AList.update x (PDict (numeric_filter (flatten dd [] ''_''))) D0)
        (sent @ [metrics_request x None]) = (Inr D, sent')"
    by (auto simp: get_asset_metrics_def Let_def split: sum.splits pyval.splits)
  note ih = Cons.IH [OF rest]
  show ?case
  proof (cases "a = x")
    case True
    with m' dd assms(2,3) have "dd = d" by simp
    with ih True show ?thesis by (simp add: update_conv')
  next
    case False
    with ih show ?thesis by (simp add: update_conv')
  qed
qed

lemma metrics_single_asset:
  assumes "metrics_json sess (metrics_request asset None) = Inr m"
    and "py_getitem m ''data'' = Inr (PDict d)"
  shows "get_assets_metrics_pd sess (Some [asset]) True sent
           = (Inr [(asset, PDict (numeric_filter (flatten d [] ''_'')))],
              sent @ [metrics_request asset None])"
  using assms by (simp add: get_assets_metrics_pd_def get_asset_metrics_def)

text \<open>
  Claim C6, as stated, fails on a boolean: a boolean is neither an integer nor a
  floating-point number, but \<^verbatim>\<open>isinstance(v, int)\<close> is true of it and the filter keeps the
  entry. The metrics record \<^verbatim>\<open>{"is_listed": true, "name": "Cardano"}\<close> of the asset
  \<^verbatim>\<open>ada\<close> gives the row \<^verbatim>\<open>{"is_listed": true}\<close>: the string is dropped, the boolean is
  not.
\<close>

theorem boolean_entry_not_dropped_counterexample:
  "get_assets_metrics_pd scenario_session (Some [''ada'']) True []
     = (Inr [(''ada'', PDict [(''is_listed'', PBool True)])], [metrics_request ''ada'' None])"
  by (simp add: get_assets_metrics_pd_def get_asset_metrics_def scenario_session_def
      metrics_request_def BASE_URL_def py_getitem_def numeric_filter_def flatten_def
      py_dict_def isinstance_int_def isinstance_float_def)

text \<open>
  Claim C6, amended. With the numeric filter enabled (\<^verbatim>\<open>flatten_df\<close> true), the row stored
  for an asset is the flattened metrics record without the entries whose value is null and
  without the entries whose value is not an integer, a boolean or a floating-point number:
  an entry of the flattened record is in the row exactly when its value is an integer, a
  boolean or a float. The record
  \<^verbatim>\<open>{"market_data": {"price_usd": 50000, "volume": null}}\<close> gives exactly
  \<^verbatim>\<open>{"market_data_price_usd": 50000}\<close>.
\<close>

theorem numeric_filter_drops_null_and_non_numbers:
  assumes "metrics_json sess (metrics_request asset None) = Inr m"
    and "py_getitem m ''data'' = Inr (PDict d)"
  shows "(\<exists>row. get_assets_metrics_pd sess (Some [asset]) True sent
                  = (Inr [(asset, PDict row)], sent @ [metrics_request asset None])
             \<and> row = numeric_filter (flatten d [] ''_'')
             \<and> (\<forall>k v. (k, v) \<in> set row \<longleftrightarrow>
                    (k, v) \<in> set (flatten d [] ''_'')
                    \<and> ((\<exists>n. v = PInt n) \<or> (\<exists>b. v = PBool b) \<or> (\<exists>x. v = PFloat x))))
       \<and> numeric_filter (flatten
            [(''market_data'', PDict [(''price_usd'', PInt 50000), (''volume'', PNone)])] [] ''_'')
          = [(''market_data_price_usd'', PInt 50000 :: 'f pyval)]"
proof -
  have "numeric_filter (flatten
            [(''market_data'', PDict [(''price_usd'', PInt 50000), (''volume'', PNone)])] [] ''_'')
          = [(''market_data_price_usd'', PInt 50000 :: 'f pyval)]"
    by (simp add: numeric_filter_def flatten_def py_dict_def isinstance_int_def
        isinstance_float_def)
  with metrics_single_asset [OF assms] numeric_filter_mem show ?thesis by blast
qed

theorem numeric_filter_drops_null_and_non_numbers_witness:
  "get_assets_metrics_pd scenario_session (Some [''btc'']) True []
     = (Inr [(''btc'', PDict [(''market_data_price_usd'', PInt 50000)])],
        [metrics_request ''btc'' None])"
proof -
  have m: "metrics_json scenario_session (metrics_request ''btc'' None)
      = Inr (PDict [(''data'',
               PDict [(''market_data'',
                  PDict [(''price_usd'', PInt 50000), (''volume'', PNone)])])])"
    by (simp add: scenario_session_def metrics_request_def BASE_URL_def)
  have d: "py_getitem (PDict [(''data'',
               PDict [(''market_data'',
                  PDict [(''price_usd'', PInt 50000), (''volume'', PNone :: real pyval)])])]) ''data''
      = Inr (PDict [(''market_data'',
                  PDict [(''price_usd'', PInt 50000), (''volume'', PNone)])])"
    by (simp add: py_getitem_def)
  from numeric_filter_drops_null_and_non_numbers [OF m d, of "[]"]
  show ?thesis by auto
qed

text \<open>
  Claim C10. The numeric filter accepts booleans: when \<^verbatim>\<open>get_assets_metrics_pd\<close> returns
  with the filter enabled, the row of every asset of the list whose flattened metrics record
  holds a boolean-valued field holds that field with its value, because
  \<^verbatim>\<open>isinstance(v, int)\<close> is true of a boolean.
\<close>

theorem numeric_filter_keeps_booleans:
  assumes "get_assets_metrics_pd sess (Some assets) True sent = (Inr D, sent')"
    and "asset \<in> set assets"
    and "metrics_json sess (metrics_request asset None) = Inr m"
    and "py_getitem m ''data'' = Inr (PDict d)"
    and "(k, PBool b) \<in> set (flatten d [] ''_'')"
  shows "\<exists>row. map_of D asset = Some (PDict row) \<and> (k, PBool b) \<in> set row"
proof -
  from assms(1) have "metrics_loop sess True assets [] sent = (Inr D, sent')"
    by (simp add: get_assets_metrics_pd_def)
  from metrics_loop_row [OF this assms(3,4)] assms(2)
  have "map_of D asset = Some (PDict (numeric_filter (flatten d [] ''_'')))" by simp
  moreover from assms(5) have "(k, PBool b) \<in> set (numeric_filter (flatten d [] ''_''))"
    by (simp add: numeric_filter_def isinstance_int_def)
  ultimately show ?thesis by blast
qed

theorem numeric_filter_keeps_booleans_witness:
  "get_assets_metrics_pd scenario_session (Some [''btc'', ''eth'']) True []
     = (Inr [(''btc'', PDict [(''market_data_price_usd'', PInt 50000)]),
             (''eth'', PDict [(''misc_data_private'', PBool True), (''roi'', PFloat (3 / 2))])],
        [metrics_request ''btc'' None, metrics_request ''eth'' None])
   \<and> (\<exists>row. map_of [(''btc'', PDict [(''market_data_price_usd'', PInt 50000)]),
             (''eth'', PDict [(''misc_data_private'', PBool True), (''roi'', PFloat (3 / 2 :: real))])]
            ''eth'' = Some (PDict row)
          \<and> (''misc_data_private'', PBool True) \<in> set row)"
proof -
  have run: "get_assets_metrics_pd scenario_session (Some [''btc'', ''eth'']) True []
     = (Inr [(''btc'', PDict [(''market_data_price_usd'', PInt 50000)]),
             (''eth'', PDict [(''misc_data_private'', PBool True), (''roi'', PFloat (3 / 2))])],
        [metrics_request ''btc'' None, metrics_request ''eth'' None])"
    by (simp add: get_assets_metrics_pd_def get_asset_metrics_def scenario_session_def
        metrics_request_def BASE_URL_def py_getitem_def numeric_filter_def flatten_def
        py_dict_def isinstance_int_def isinstance_float_def)
  have m: "metrics_json scenario_session (metrics_request ''eth'' None)
      = Inr (PDict [(''data'',
               PDict [(''symbol'', PStr ''ETH''),
                      (''misc_data'', PDict [(''private'', PBool True), (''tags'', PList [])]),
                      (''roi'', PFloat (3 / 2))])])"
    by (simp add: scenario_session_def metrics_request_def BASE_URL_def)
  have d: "py_getitem (PDict [(''data'',
               PDict [(''symbol'', PStr ''ETH''),
                      (''misc_data'', PDict [(''private'', PBool True), (''tags'', PList [])]),
                      (''roi'', PFloat (3 / 2 :: real))])]) ''data''
      = Inr (PDict [(''symbol'', PStr ''ETH''),
                      (''misc_data'', PDict [(''private'', PBool True), (''tags'', PList [])]),
                      (''roi'', PFloat (3 / 2))])"
    by (simp add: py_getitem_def)
  have b: "(''misc_data_private'', PBool True) \<in> set (flatten
               [(''symbol'', PStr ''ETH''),
                (''misc_data'', PDict [(''private'', PBool True), (''tags'', PList [])]),
                (''roi'', PFloat (3 / 2 :: real))] [] ''_'')"
    by (simp add: flatten_def py_dict_def)
  from numeric_filter_keeps_booleans [OF run _ m d b] run show ?thesis by simp
qed

section \<open>Aligning the price histories\<close>

lemma format_dates_length: "format_dates e ts = Inr ds \<Longrightarrow> length ds = length ts"
  by (induction ts arbitrary: ds) (auto split: sum.splits)

lemma price_history_result:
  "fst (get_asset_price_history sess e k sd ed c i sent)
     = fst (get_asset_price_history sess e k sd ed c i [])"
  by (simp add: get_asset_price_history_def get_asset_timeseries_def Let_def)

lemma asset_data_functional:
  "asset_data sess e assets sd ed c i sent = (Inr series, sent') \<Longrightarrow>
     series = map (\<lambda>k. projr (fst (get_asset_price_history sess e k sd ed c i []))) assets"
proof (induction assets arbitrary: sent series)
  case Nil
  then show ?case by simp
next
  case (Cons key keys)
  from Cons.prems obtain ts sent1 rest where
    one: "get_asset_price_history sess e key sd ed c i sent = (Inr ts, sent1)"
    and more: "asset_data sess e keys sd ed c i sent1 = (Inr rest, sent')"
    and series: "series = ts # rest"
    by (auto split: prod.splits sum.splits)
  from one have "fst (get_asset_price_history sess e key sd ed c i []) = Inr ts"
    using price_history_result [of sess e key sd ed c i sent] by simp
  with Cons.IH [OF more] series show ?case by simp
qed

lemma all_eq_iff: "all_eq xs \<longleftrightarrow> (\<forall>x \<in> set xs. \<forall>y \<in> set xs. x = y)"
  by (simp add: all_eq_def length_remdups_card_conv card_le_Suc0_iff_eq)

lemma py_max_Max: "lens \<noteq> [] \<Longrightarrow> py_max lens = Inr (Max (set lens))"
  by (cases lens) (simp_all add: py_max_def Max.set_eq_fold [symmetric])

lemma foldl_dict_update_singletons:
  "foldl dict_update acc (map (\<lambda>x. [f x]) zs)
     = foldl (\<lambda>out (k, v). AList.update k v out) acc (map f zs)"
  by (induction zs arbitrary: acc) (simp_all add: dict_update_def)

lemma merge_dicts_singletons:
  "merge_dicts (map (\<lambda>x. [f x]) zs) = py_dict (map f zs)"
  by (simp add: merge_dicts_def py_dict_def foldl_dict_update_singletons)

lemma map_of_foldl_update:
  "map_of (foldl (\<lambda>out (k, v). AList.update k v out) acc xs) = map_of acc ++ map_of (rev xs)"
proof (induction xs arbitrary: acc)
  case Nil
  then show ?case by simp
next
  case (Cons x xs)
  obtain k v where x: "x = (k, v)" by (cases x)
  have "map_of (foldl (\<lambda>out (k, v). AList.update k v out) (AList.update k v acc) xs)
      = map_of (AList.update k v acc) ++ map_of (rev xs)"
    by (rule Cons.IH)
  also have "\<dots> = map_of acc ++ map_of (rev (x # xs))"
    by (rule ext) (simp add: x update_conv' map_add_def split: option.splits)
  finally show ?case by (simp add: x)
qed

lemma distinct_foldl_update:
  "distinct (map fst acc) \<Longrightarrow>
     distinct (map fst (foldl (\<lambda>out (k, v). AList.update k v out) acc xs))"
  by (induction xs arbitrary: acc) (auto simp: distinct_update)

lemma map_of_py_dict: "map_of (py_dict xs) = map_of (rev xs)"
  by (simp add: py_dict_def map_of_foldl_update)

lemma distinct_py_dict: "distinct (map fst (py_dict xs))"
  by (simp add: py_dict_def distinct_foldl_update)

lemma set_py_dict_functional:
  "set (py_dict (map (\<lambda>k. (k, h k)) ks)) = (\<lambda>k. (k, h k)) ` set ks"
proof -
  have m: "map_of (rev (map (\<lambda>k. (k, h k)) ks)) = (Some \<circ> h) |` set ks"
    using map_of_map_restrict [of h "rev ks"] by (simp add: rev_map)
  have "\<And>k v. (k, v) \<in> set (py_dict (map (\<lambda>k. (k, h k)) ks)) \<longleftrightarrow> k \<in> set ks \<and> v = h k"
  proof -
    fix k v
    have "(k, v) \<in> set (py_dict (map (\<lambda>k. (k, h k)) ks))
        \<longleftrightarrow> map_of (py_dict (map (\<lambda>k. (k, h k)) ks)) k = Some v"
      using distinct_py_dict [of "map (\<lambda>k. (k, h k)) ks"] by simp
    also have "\<dots> \<longleftrightarrow> k \<in> set ks \<and> v = h k"
      by (auto simp: map_of_py_dict m restrict_map_def)
    finally show "(k, v) \<in> set (py_dict (map (\<lambda>k. (k, h k)) ks)) \<longleftrightarrow> k \<in> set ks \<and> v = h k" .
  qed
  then show ?thesis by auto
qed

lemma zip_functional: "zip ks (map F ks) = map (\<lambda>k. (k, F k)) ks"
  by (induction ks) simp_all

lemma maybe_repeat_same: "length arr = n \<Longrightarrow> maybe_repeat arr n = arr"
  by (simp add: maybe_repeat_def)

lemma maybe_repeat_long: "2 \<le> length arr \<Longrightarrow> maybe_repeat arr n = arr"
  by (simp add: maybe_repeat_def)

lemma pd_DataFrame_same_length:
  assumes "\<forall>x \<in> set data. length (snd x) = length idx"
  shows "pd_DataFrame data idx = Inr \<lparr>df_index = idx, df_columns = data\<rparr>"
proof -
  have cols: "map (\<lambda>(k, v). (k, maybe_repeat v (length idx))) data = data"
    by (rule map_idI) (use assms in \<open>auto simp: maybe_repeat_same\<close>)
  from assms have "list_all (\<lambda>(k, v). length v = length idx) data"
    by (auto simp: list_all_iff)
  with cols show ?thesis by (simp add: pd_DataFrame_def)
qed

lemma pd_DataFrame_long_mismatch:
  assumes "\<forall>x \<in> set data. length (snd x) = m" and "2 \<le> m" and "m \<noteq> length idx"
    and "data \<noteq> []"
  shows "pd_DataFrame data idx = Inl ValueError"
proof -
  have cols: "map (\<lambda>(k, v). (k, maybe_repeat v (length idx))) data = data"
    by (rule map_idI) (use assms(1,2) in \<open>auto simp: maybe_repeat_long\<close>)
  from assms(4) obtain x where "x \<in> set data" by (cases data) auto
  with assms(1,3) have "\<not> (case x of (k, v) \<Rightarrow> length v = length idx)"
    by (simp add: case_prod_beta)
  with \<open>x \<in> set data\<close> have "\<not> list_all (\<lambda>(k, v). length v = length idx) data"
    unfolding list_all_iff by blast
  with cols show ?thesis by (simp add: pd_DataFrame_def)
qed

lemma pad_columns_length:
  assumes "x \<in> set (pad_columns f m data)" and "\<forall>y \<in> set data. length (snd y) \<le> m"
  shows "length (snd x) = m"
  using assms by (auto simp: pad_columns_def)

lemma pad_and_frame_char:
  fixes data :: "(string \<times> ('v::zero) list) list"
  assumes first: "x0 \<in> set data" "length (snd x0) = length dates"
    and nonempty: "\<forall>x \<in> set data. snd x \<noteq> []"
  shows "pad_and_frame f data dates =
    (if \<forall>x \<in> set data. length (snd x) \<le> length dates
     then Inr \<lparr>df_index = dates,
              df_columns = (if \<forall>x \<in> set data. length (snd x) = length dates then data
                            else pad_columns f (length dates) data)\<rparr>
     else Inl ValueError)"
proof -
  define lens where "lens = map (\<lambda>x. length x) (map snd data)"
  define n where "n = length dates"
  define M where "M = Max (set lens)"
  have set_lens: "set lens = (\<lambda>x. length (snd x)) ` set data"
    by (auto simp: lens_def)
  from first(1) have "length (snd x0) \<in> (\<lambda>x. length (snd x)) ` set data" by (rule imageI)
  with first(2) have n_in: "n \<in> set lens" by (simp add: set_lens n_def)
  then have lens_ne: "lens \<noteq> []" by auto
  have mx: "py_max lens = Inr M" using lens_ne by (simp add: py_max_Max M_def)
  have le_M: "\<forall>x \<in> set data. length (snd x) \<le> M"
    unfolding M_def set_lens by (auto intro!: Max_ge)
  have M_in: "M \<in> set lens" unfolding M_def using lens_ne by (intro Max_in) auto
  have n_le: "n \<le> M" using n_in unfolding M_def by (auto intro!: Max_ge)
  have unfold: "pad_and_frame f data dates
      = pd_DataFrame (if \<not> all_eq lens then pad_columns f M data else data) dates"
    using mx by (simp add: pad_and_frame_def lens_def [symmetric] del: map_map)
  show ?thesis
  proof (cases "all_eq lens")
    case True
    then have uniq: "\<forall>x \<in> set lens. \<forall>y \<in> set lens. x = y"
      unfolding all_eq_iff .
    have same: "\<forall>x \<in> set data. length (snd x) = length dates"
    proof
      fix x assume "x \<in> set data"
      then have "length (snd x) \<in> set lens" unfolding set_lens by (rule imageI)
      with uniq n_in show "length (snd x) = length dates" unfolding n_def by blast
    qed
    then have lhs: "pad_and_frame f data dates = Inr \<lparr>df_index = dates, df_columns = data\<rparr>"
      using True by (simp add: unfold pd_DataFrame_same_length)
    have le: "\<forall>x \<in> set data. length (snd x) \<le> length dates"
      using same by simp
    show ?thesis unfolding lhs by (simp only: le [THEN Eq_TrueI] same [THEN Eq_TrueI] if_True)
  next
    case False
    then have "\<not> (\<forall>x \<in> set lens. \<forall>y \<in> set lens. x = y)"
      unfolding all_eq_iff .
    then obtain a b where ab: "a \<in> set lens" "b \<in> set lens" "a \<noteq> b"
      by blast
    have "1 \<le> a" "1 \<le> b" using ab nonempty by (auto simp: set_lens Suc_le_eq)
    moreover have "a \<le> M" "b \<le> M" using ab unfolding M_def by (auto intro!: Max_ge)
    ultimately have M2: "2 \<le> M" using ab(3) by arith
    have differ: "\<not> (\<forall>x \<in> set data. length (snd x) = length dates)"
    proof
      assume all: "\<forall>x \<in> set data. length (snd x) = length dates"
      from ab(1) obtain x where "x \<in> set data" "a = length (snd x)" unfolding set_lens by blast
      with all have "a = length dates" by simp
      moreover from ab(2) obtain y where "y \<in> set data" "b = length (snd y)"
        unfolding set_lens by blast
      with all have "b = length dates" by simp
      ultimately show False using ab(3) by simp
    qed
    have plen: "\<forall>x \<in> set (pad_columns f M data). length (snd x) = M"
      using le_M by (auto simp: pad_columns_def)
    have pne: "pad_columns f M data \<noteq> []" using first(1) by (auto simp: pad_columns_def)
    show ?thesis
    proof (cases "M = n")
      case True
      with plen have "\<forall>x \<in> set (pad_columns f M data). length (snd x) = length dates"
        by (simp add: n_def)
      then have "pd_DataFrame (pad_columns f M data) dates
          = Inr \<lparr>df_index = dates, df_columns = pad_columns f M data\<rparr>"
        by (rule pd_DataFrame_same_length)
      moreover from True have Mn: "M = length dates" by (simp add: n_def)
      ultimately have lhs: "pad_and_frame f data dates
          = Inr \<lparr>df_index = dates, df_columns = pad_columns f (length dates) data\<rparr>"
        using False by (simp add: unfold)
      have le: "\<forall>x \<in> set data. length (snd x) \<le> length dates"
        using le_M Mn by simp
      show ?thesis unfolding lhs
        by (simp only: le [THEN Eq_TrueI] differ [THEN Eq_FalseI] if_True if_False)
    next
      case neq: False
      then have "M \<noteq> length dates" by (simp add: n_def)
      with plen M2 pne have "pd_DataFrame (pad_columns f M data) dates = Inl ValueError"
        by (intro pd_DataFrame_long_mismatch [where m = M]) auto
      then have lhs: "pad_and_frame f data dates = Inl ValueError"
        using False by (simp add: unfold)
      have longer: "\<not> (\<forall>x \<in> set data. length (snd x) \<le> length dates)"
      proof
        assume a: "\<forall>x \<in> set data. length (snd x) \<le> length dates"
        from M_in obtain x where "x \<in> set data" "length (snd x) = M"
          by (auto simp: set_lens)
        with a have "M \<le> n" by (auto simp: n_def)
        with n_le neq show False by simp
      qed
      show ?thesis unfolding lhs by (simp only: longer [THEN Eq_FalseI] if_False)
    qed
  qed
qed

lemma align_functional:
  fixes F :: "string \<Rightarrow> (int \<times> ('v::zero)) list"
  assumes ne: "assets \<noteq> []"
  shows "align_price_history f e assets (map F assets) =
    (if F (hd assets) = [] then Inl IndexError
     else case format_dates e (map fst (F (hd assets))) of
       Inl err \<Rightarrow> Inl err
     | Inr dates \<Rightarrow>
         if \<exists>k \<in> set assets. F k = [] then Inl IndexError
         else if \<forall>k \<in> set assets. length (F k) \<le> length (F (hd assets))
         then Inr \<lparr>df_index = dates,
                  df_columns =
                    (if \<forall>k \<in> set assets. length (F k) = length (F (hd assets))
                     then py_dict (map (\<lambda>k. (k, map snd (F k))) assets)
                     else pad_columns f (length dates)
                            (py_dict (map (\<lambda>k. (k, map snd (F k))) assets)))\<rparr>
         else Inl ValueError)"
proof -
  from ne obtain a rest where assets: "assets = a # rest" by (cases assets) auto
  define data where "data = py_dict (map (\<lambda>k. (k, map snd (F k))) assets)"
  have data: "merge_dicts (map (\<lambda>x. [(fst x, map snd (snd x))]) (zip assets (map F assets))) = data"
    by (simp add: merge_dicts_singletons zip_functional data_def comp_def)
  have set_data: "set data = (\<lambda>k. (k, map snd (F k))) ` set assets"
    unfolding data_def by (rule set_py_dict_functional)
  have empties: "[] \<in> set (map snd (zip assets (map F assets))) \<longleftrightarrow> (\<exists>k \<in> set assets. F k = [])"
    by (force simp: zip_functional comp_def image_iff)
  show ?thesis
  proof (cases "F a = []")
    case True
    then show ?thesis by (simp add: align_price_history_def assets)
  next
    case first_ne: False
    show ?thesis
    proof (cases "format_dates e (map fst (F a))")
      case (Inl err)
      with first_ne show ?thesis by (simp add: align_price_history_def assets)
    next
      case (Inr dates)
      then have len: "length dates = length (F a)"
        using format_dates_length by fastforce
      show ?thesis
      proof (cases "\<exists>k \<in> set assets. F k = []")
        case True
        with empties have "[] \<in> set (map snd (zip assets (map F assets)))" by simp
        with first_ne Inr True show ?thesis
          unfolding align_price_history_def assets by (simp del: set_map)
      next
        case False
        with empties have no: "[] \<notin> set (map snd (zip assets (map F assets)))" by simp
        have step: "align_price_history f e assets (map F assets) = pad_and_frame f data dates"
          using first_ne Inr no data
          unfolding align_price_history_def assets by (simp del: set_map)
        have x0: "(a, map snd (F a)) \<in> set data" by (simp add: set_data assets)
        have l0: "length (snd (a, map snd (F a))) = length dates" by (simp add: len)
        have nonempty: "\<forall>x \<in> set data. snd x \<noteq> []"
          using False by (auto simp: set_data)
        have cond: "(\<forall>x \<in> set data. length (snd x) \<le> length dates)
            \<longleftrightarrow> (\<forall>k \<in> set assets. length (F k) \<le> length (F (hd assets)))"
          by (auto simp: set_data len assets)
        have cond2: "(\<forall>x \<in> set data. length (snd x) = length dates)
            \<longleftrightarrow> (\<forall>k \<in> set assets. length (F k) = length (F (hd assets)))"
          by (auto simp: set_data len assets)
        from pad_and_frame_char [OF x0 l0 nonempty, of f] first_ne Inr False step
        show ?thesis unfolding cond cond2 by (simp add: assets data_def)
      qed
    qed
  qed
qed

lemma pd_after_fetch:
  assumes "asset_data sess e assets sd ed c i sent = (Inr series, sent')"
  shows "get_assets_price_history_pd sess e assets sd ed c i sent
           = (align_price_history (float64 sess) e assets series, sent')"
  using assms by (simp add: get_assets_price_history_pd_def)

lemma padded_columns_of_series:
  fixes F :: "string \<Rightarrow> (int \<times> ('v::zero)) list"
  assumes "series = map F assets"
  shows "py_dict (map (\<lambda>k. (k, map snd (F k))) assets)
           = py_dict (map (\<lambda>(k, s). (k, map snd s)) (zip assets series))"
  using assms by (simp add: zip_functional comp_def)

lemma aligned_table:
  fixes sess :: "('f, 'v::zero) session"
  assumes fetch: "asset_data sess e assets sd ed c i sent = (Inr series, sent')"
    and res: "fst (get_assets_price_history_pd sess e assets sd ed c i sent) = Inr df"
  shows "assets \<noteq> [] \<and> (\<forall>s \<in> set series. s \<noteq> [] \<and> length s \<le> length (hd series))
       \<and> format_dates e (map fst (hd series)) = Inr (df_index df)
       \<and> length (df_index df) = length (hd series)
       \<and> df_columns df =
           (if \<forall>s \<in> set series. length s = length (hd series)
            then py_dict (map (\<lambda>(k, s). (k, map snd s)) (zip assets series))
            else pad_columns (float64 sess) (length (df_index df))
                   (py_dict (map (\<lambda>(k, s). (k, map snd s)) (zip assets series))))"
proof -
  define F where "F = (\<lambda>k. projr (fst (get_asset_price_history sess e k sd ed c i [])))"
  have series: "series = map F assets"
    unfolding F_def using fetch by (rule asset_data_functional)
  from res fetch have al: "align_price_history (float64 sess) e assets series = Inr df"
    by (simp add: pd_after_fetch)
  have ne: "assets \<noteq> []"
  proof
    assume "assets = []"
    with series al show False by (simp add: align_price_history_def)
  qed
  from al have al': "align_price_history (float64 sess) e assets (map F assets) = Inr df"
    by (simp add: series)
  note af = align_functional [OF ne, of "float64 sess" e F]
  have p1: "F (hd assets) \<noteq> []"
  proof
    assume a: "F (hd assets) = []"
    have "align_price_history (float64 sess) e assets (map F assets) = Inl IndexError"
      unfolding af by (simp only: a [THEN Eq_TrueI] if_True)
    with al' show False by simp
  qed
  obtain dates where fd: "format_dates e (map fst (F (hd assets))) = Inr dates"
  proof (cases "format_dates e (map fst (F (hd assets)))")
    case (Inl err)
    then have "align_price_history (float64 sess) e assets (map F assets) = Inl err"
      unfolding af by (simp only: p1 [THEN Eq_FalseI] if_False sum.case)
    with al' show ?thesis by simp
  next
    case (Inr dates)
    then show ?thesis by (rule that)
  qed
  have p3: "\<not> (\<exists>k \<in> set assets. F k = [])"
  proof
    assume a: "\<exists>k \<in> set assets. F k = []"
    have "align_price_history (float64 sess) e assets (map F assets) = Inl IndexError"
      unfolding af
      by (simp only: p1 [THEN Eq_FalseI] fd a [THEN Eq_TrueI] if_True if_False sum.case)
    with al' show False by simp
  qed
  have p4: "\<forall>k \<in> set assets. length (F k) \<le> length (F (hd assets))"
  proof (rule ccontr)
    assume a: "\<not> (\<forall>k \<in> set assets. length (F k) \<le> length (F (hd assets)))"
    have "align_price_history (float64 sess) e assets (map F assets) = Inl ValueError"
      unfolding af
      by (simp only: p1 [THEN Eq_FalseI] fd p3 [THEN Eq_FalseI] a [THEN Eq_FalseI]
          if_True if_False sum.case)
    with al' show False by simp
  qed
  have "align_price_history (float64 sess) e assets (map F assets)
      = Inr \<lparr>df_index = dates,
             df_columns =
               (if \<forall>k \<in> set assets. length (F k) = length (F (hd assets))
                then py_dict (map (\<lambda>k. (k, map snd (F k))) assets)
                else pad_columns (float64 sess) (length dates)
                       (py_dict (map (\<lambda>k. (k, map snd (F k))) assets)))\<rparr>"
    unfolding af
    by (simp only: p1 [THEN Eq_FalseI] fd p3 [THEN Eq_FalseI] p4 [THEN Eq_TrueI]
        if_True if_False sum.case)
  with al' have df: "df = \<lparr>df_index = dates,
             df_columns =
               (if \<forall>k \<in> set assets. length (F k) = length (F (hd assets))
                then py_dict (map (\<lambda>k. (k, map snd (F k))) assets)
                else pad_columns (float64 sess) (length dates)
                       (py_dict (map (\<lambda>k. (k, map snd (F k))) assets)))\<rparr>"
    by simp
  have idx: "df_index df = dates" by (subst df) simp
  have cols: "df_columns df =
               (if \<forall>k \<in> set assets. length (F k) = length (F (hd assets))
                then py_dict (map (\<lambda>k. (k, map snd (F k))) assets)
                else pad_columns (float64 sess) (length dates)
                       (py_dict (map (\<lambda>k. (k, map snd (F k))) assets)))"
    by (subst df) simp
  have hd: "hd series = F (hd assets)" using ne by (simp add: series hd_map)
  have len: "length dates = length (F (hd assets))"
    using fd format_dates_length by fastforce
  have all_s: "(\<forall>s \<in> set series. P s) \<longleftrightarrow> (\<forall>k \<in> set assets. P (F k))" for P
    by (simp add: series)
  have c2: "\<forall>s \<in> set series. s \<noteq> [] \<and> length s \<le> length (hd series)"
    unfolding all_s hd using p3 p4 by blast
  have c3: "format_dates e (map fst (hd series)) = Inr (df_index df)"
    unfolding hd idx by (rule fd)
  have c4: "length (df_index df) = length (hd series)"
    unfolding hd idx by (rule len)
  have c5: "df_columns df =
           (if \<forall>s \<in> set series. length s = length (hd series)
            then py_dict (map (\<lambda>(k, s). (k, map snd s)) (zip assets series))
            else pad_columns (float64 sess) (length (df_index df))
                   (py_dict (map (\<lambda>(k, s). (k, map snd s)) (zip assets series))))"
    unfolding all_s hd idx padded_columns_of_series [OF series, symmetric] by (rule cols)
  from ne c2 c3 c4 c5 show ?thesis by (intro conjI)
qed

lemma aligned_table_exists:
  fixes sess :: "('f, 'v::zero) session"
  assumes fetch: "asset_data sess e assets sd ed c i sent = (Inr series, sent')"
    and ne: "assets \<noteq> []"
    and ok: "\<forall>s \<in> set series. s \<noteq> [] \<and> length s \<le> length (hd series)"
    and dates: "format_dates e (map fst (hd series)) = Inr dates"
  shows "\<exists>df. get_assets_price_history_pd sess e assets sd ed c i sent = (Inr df, sent')
           \<and> df_index df = dates"
proof -
  define F where "F = (\<lambda>k. projr (fst (get_asset_price_history sess e k sd ed c i [])))"
  have series: "series = map F assets"
    unfolding F_def using fetch by (rule asset_data_functional)
  have hd: "hd series = F (hd assets)" using ne by (simp add: series hd_map)
  have all_s: "(\<forall>s \<in> set series. P s) \<longleftrightarrow> (\<forall>k \<in> set assets. P (F k))" for P
    by (simp add: series)
  from ne have "hd assets \<in> set assets" by simp
  with ok have p1: "F (hd assets) \<noteq> []" unfolding all_s by blast
  from ok have p3: "\<not> (\<exists>k \<in> set assets. F k = [])" unfolding all_s by blast
  from ok have p4: "\<forall>k \<in> set assets. length (F k) \<le> length (F (hd assets))"
    unfolding all_s hd by blast
  from dates have fd: "format_dates e (map fst (F (hd assets))) = Inr dates"
    unfolding hd .
  have "align_price_history (float64 sess) e assets (map F assets)
      = Inr \<lparr>df_index = dates,
             df_columns =
               (if \<forall>k \<in> set assets. length (F k) = length (F (hd assets))
                then py_dict (map (\<lambda>k. (k, map snd (F k))) assets)
                else pad_columns (float64 sess) (length dates)
                       (py_dict (map (\<lambda>k. (k, map snd (F k))) assets)))\<rparr>"
    unfolding align_functional [OF ne]
    by (simp only: p1 [THEN Eq_FalseI] fd p3 [THEN Eq_FalseI] p4 [THEN Eq_TrueI]
        if_True if_False sum.case)
  then have "\<exists>df. align_price_history (float64 sess) e assets series = Inr df
      \<and> df_index df = dates"
    unfolding series [symmetric] by simp
  then show ?thesis by (simp add: pd_after_fetch [OF fetch])
qed

lemma set_value_columns:
  "set (py_dict (map (\<lambda>(k, s). (k, map snd s)) (zip assets (map F assets))))
     = (\<lambda>(k, s). (k, map snd s)) ` set (zip assets (map F assets))"
proof -
  have "set (py_dict (map (\<lambda>(k, s). (k, map snd s)) (zip assets (map F assets))))
      = (\<lambda>k. (k, map snd (F k))) ` set assets"
    using set_py_dict_functional [of "\<lambda>k. map snd (F k)" assets]
    by (simp add: zip_functional comp_def)
  then show ?thesis by (simp add: zip_functional image_image)
qed

lemma distinct_padded_columns:
  assumes "distinct assets" and "length series = length assets"
  shows "py_dict (map (\<lambda>(k, s). (k, map snd s)) (zip assets series))
           = map (\<lambda>(k, s). (k, map snd s)) (zip assets series)"
proof (rule py_dict_distinct)
  have "map fst (map (\<lambda>(k, s). (k, map snd s)) (zip assets series)) = map fst (zip assets series)"
    by (simp add: comp_def case_prod_beta)
  with assms show "distinct (map fst (map (\<lambda>(k, s). (k, map snd s)) (zip assets series)))"
    by simp
qed

text \<open>
  Where a table is returned: its row count is the length of the first series, and its
  columns are the value columns of the series as they are when all series have the same
  length, and otherwise, for every asset, the zeros that the column is short of the row
  count followed by its values as \<^verbatim>\<open>float64\<close>, nothing after them.
\<close>

lemma returned_table_columns:
  fixes sess :: "('f, 'v::zero) session"
  assumes fetch: "asset_data sess e assets sd ed c i sent = (Inr series, sent')"
    and res: "fst (get_assets_price_history_pd sess e assets sd ed c i sent) = Inr df"
  shows "length (df_index df) = length (hd series)
       \<and> set (df_columns df) =
           (if \<forall>s \<in> set series. length s = length (hd series)
            then (\<lambda>(k, s). (k, map snd s)) ` set (zip assets series)
            else (\<lambda>(k, s). (k, replicate (length (df_index df) - length s) 0
                                @ map (float64 sess) (map snd s))) ` set (zip assets series))"
proof -
  note t = aligned_table [OF fetch res]
  have series: "series = map (\<lambda>k. projr (fst (get_asset_price_history sess e k sd ed c i [])))
      assets"
    using fetch by (rule asset_data_functional)
  have vals: "set (py_dict (map (\<lambda>(k, s). (k, map snd s)) (zip assets series)))
      = (\<lambda>(k, s). (k, map snd s)) ` set (zip assets series)"
    by (subst (1 2) series) (rule set_value_columns)
  have "set (pad_columns (float64 sess) (length (df_index df))
          (py_dict (map (\<lambda>(k, s). (k, map snd s)) (zip assets series))))
      = (\<lambda>(k, s). (k, replicate (length (df_index df) - length s) 0
                        @ map (float64 sess) (map snd s))) ` set (zip assets series)"
    by (simp add: pad_columns_def vals image_image case_prod_beta)
  with t vals show ?thesis by simp
qed

lemma valid_date_jan: "valid_date ''2021-01-01''"
  by (simp add: valid_date_def strptime_ok_def is_digit_def is_digit19_def digit_val_def
      days_in_month_def)

lemma valid_date_feb: "valid_date ''2021-02-01''"
  by (simp add: valid_date_def strptime_ok_def is_digit_def is_digit19_def digit_val_def
      days_in_month_def)

lemma utc_date_day0: "utc_date 0 = Inr ''1970-01-01''"
  by code_simp

lemma utc_date_day1: "utc_date 86400 = Inr ''1970-01-02''"
  by code_simp

lemma format_dates_two_days:
  "format_dates utc_env [0, 86400000] = Inr [''1970-01-01'', ''1970-01-02'']"
  by (simp add: utc_env_def to_seconds_def utc_date_day0 utc_date_day1)

lemma format_dates_day1: "format_dates utc_env [86400000] = Inr [''1970-01-02'']"
  by (simp add: utc_env_def to_seconds_def utc_date_day1)

lemma scenario_fetch:
  "key \<in> {''A'', ''B'', ''C''} \<Longrightarrow>
   get_asset_price_history scenario_session e key (Some ''2021-01-01'') (Some ''2021-02-01'')
       ''close'' ''1d'' sent
     = (Inr (if key = ''A'' then [(0, 10), (86400000, 20)]
             else if key = ''B'' then [(86400000, 5)] else [(0, 7), (86400000, 8)]),
        sent @ [timeseries_request key ''price''
                  (price_params ''close'' ''1d'' ''2021-01-01'' ''2021-02-01'')])"
  by (auto simp: get_asset_price_history_def py_not_def valid_date_jan valid_date_feb
      get_asset_timeseries_def timeseries_request_def BASE_URL_def scenario_session_def)

lemma short_first_fetch:
  "key \<in> {''A'', ''B''} \<Longrightarrow>
   get_asset_price_history short_first_session e key (Some ''2021-01-01'') (Some ''2021-02-01'')
       ''close'' ''1d'' sent
     = (Inr (if key = ''A'' then [(86400000, 10)] else [(0, 5), (86400000, 6)]),
        sent @ [timeseries_request key ''price''
                  (price_params ''close'' ''1d'' ''2021-01-01'' ''2021-02-01'')])"
  by (auto simp: get_asset_price_history_def py_not_def valid_date_jan valid_date_feb
      get_asset_timeseries_def timeseries_request_def BASE_URL_def short_first_session_def)

lemma scenario_asset_data_AB:
  "asset_data scenario_session utc_env [''A'', ''B''] (Some ''2021-01-01'') (Some ''2021-02-01'')
       ''close'' ''1d'' []
     = (Inr [[(0, 10), (86400000, 20)], [(86400000, 5)]],
        [timeseries_request ''A'' ''price'' (price_params ''close'' ''1d'' ''2021-01-01'' ''2021-02-01''),
         timeseries_request ''B'' ''price'' (price_params ''close'' ''1d'' ''2021-01-01'' ''2021-02-01'')])"
  by (simp add: scenario_fetch)

lemma scenario_asset_data_AC:
  "asset_data scenario_session utc_env [''A'', ''C''] (Some ''2021-01-01'') (Some ''2021-02-01'')
       ''close'' ''1d'' []
     = (Inr [[(0, 10), (86400000, 20)], [(0, 7), (86400000, 8)]],
        [timeseries_request ''A'' ''price'' (price_params ''close'' ''1d'' ''2021-01-01'' ''2021-02-01''),
         timeseries_request ''C'' ''price'' (price_params ''close'' ''1d'' ''2021-01-01'' ''2021-02-01'')])"
  by (simp add: scenario_fetch)

lemma short_first_asset_data:
  "asset_data short_first_session utc_env [''A'', ''B''] (Some ''2021-01-01'') (Some ''2021-02-01'')
       ''close'' ''1d'' []
     = (Inr [[(86400000, 10)], [(0, 5), (86400000, 6)]],
        [timeseries_request ''A'' ''price'' (price_params ''close'' ''1d'' ''2021-01-01'' ''2021-02-01''),
         timeseries_request ''B'' ''price'' (price_params ''close'' ''1d'' ''2021-01-01'' ''2021-02-01'')])"
  by (simp add: short_first_fetch)

lemma scenario_asset_data_BA:
  "asset_data scenario_session utc_env [''B'', ''A''] (Some ''2021-01-01'') (Some ''2021-02-01'')
       ''close'' ''1d'' []
     = (Inr [[(86400000, 5)], [(0, 10), (86400000, 20)]],
        [timeseries_request ''B'' ''price'' (price_params ''close'' ''1d'' ''2021-01-01'' ''2021-02-01''),
         timeseries_request ''A'' ''price'' (price_params ''close'' ''1d'' ''2021-01-01'' ''2021-02-01'')])"
  by (simp add: scenario_fetch)

lemma scenario_float64: "float64 scenario_session = (\<lambda>x. x)"
  by (simp add: scenario_session_def)

lemma short_first_float64: "float64 short_first_session = (\<lambda>x. x)"
  by (simp add: short_first_session_def)

lemma short_first_frame:
  "pad_and_frame (\<lambda>x. x) [(''A'', [10]), (''B'', [5, 6 :: real])] [''1970-01-02'']
     = Inl ValueError"
  by (simp add: pad_and_frame_def py_max_def all_eq_def pad_columns_def pd_DataFrame_def
      maybe_repeat_def)

lemma short_first_align:
  "align_price_history (\<lambda>x. x) utc_env [''A'', ''B'']
       [[(86400000, 10)], [(0, 5), (86400000, 6 :: real)]]
     = Inl ValueError"
  by (simp add: align_price_history_def format_dates_day1 merge_dicts_def dict_update_def
      short_first_frame del: format_dates.simps)

lemma scenario_frame:
  "pad_and_frame (\<lambda>x. x) [(''A'', [10, 20]), (''B'', [5 :: real])]
       [''1970-01-01'', ''1970-01-02'']
     = Inr \<lparr>df_index = [''1970-01-01'', ''1970-01-02''],
            df_columns = [(''A'', [10, 20]), (''B'', [0, 5])]\<rparr>"
  by (simp add: pad_and_frame_def py_max_def all_eq_def pad_columns_def pd_DataFrame_def
      maybe_repeat_def)

lemma scenario_align:
  "align_price_history (\<lambda>x. x) utc_env [''A'', ''B'']
       [[(0, 10), (86400000, 20)], [(86400000, 5 :: real)]]
     = Inr \<lparr>df_index = [''1970-01-01'', ''1970-01-02''],
            df_columns = [(''A'', [10, 20]), (''B'', [0, 5])]\<rparr>"
  by (simp add: align_price_history_def format_dates_two_days merge_dicts_def dict_update_def
      scenario_frame del: format_dates.simps)

lemma reversed_frame:
  "pad_and_frame (\<lambda>x. x) [(''B'', [5]), (''A'', [10, 20 :: real])] [''1970-01-02'']
     = Inl ValueError"
  by (simp add: pad_and_frame_def py_max_def all_eq_def pad_columns_def pd_DataFrame_def
      maybe_repeat_def)

lemma reversed_align:
  "align_price_history (\<lambda>x. x) utc_env [''B'', ''A'']
       [[(86400000, 5)], [(0, 10), (86400000, 20 :: real)]]
     = Inl ValueError"
  by (simp add: align_price_history_def format_dates_day1 merge_dicts_def dict_update_def
      reversed_frame del: format_dates.simps)

text \<open>
  Claim C1, on an input where it fails. The asset list is \<^verbatim>\<open>["A", "B"]\<close>; the series of
  \<^verbatim>\<open>A\<close> has one point and the series of \<^verbatim>\<open>B\<close> has two. The claim asks for a table
  of two rows whichever asset has the longest series. The code pads the column of \<^verbatim>\<open>A\<close>
  to two values, but it takes the dates from the first asset alone, so the index has one
  entry and \<^verbatim>\<open>pd.DataFrame\<close> raises \<^verbatim>\<open>ValueError\<close>: no table is produced.
\<close>

theorem first_asset_shorter_raises:
  "get_assets_price_history_pd short_first_session utc_env [''A'', ''B'']
       (Some ''2021-01-01'') (Some ''2021-02-01'') ''close'' ''1d'' []
     = (Inl ValueError,
        [timeseries_request ''A'' ''price'' (price_params ''close'' ''1d'' ''2021-01-01'' ''2021-02-01''),
         timeseries_request ''B'' ''price'' (price_params ''close'' ''1d'' ''2021-01-01'' ''2021-02-01'')])"
  by (simp add: pd_after_fetch [OF short_first_asset_data] short_first_float64 short_first_align)

text \<open>
  Claim C4, on an input where it fails. With the assets in the order of the claim's
  scenario, \<^verbatim>\<open>["A", "B"]\<close> with the series \<^verbatim>\<open>[(0,10),(86400000,20)]\<close> of \<^verbatim>\<open>A\<close> and
  \<^verbatim>\<open>[(86400000,5)]\<close> of \<^verbatim>\<open>B\<close>, the table has the two rows of \<^verbatim>\<open>A\<close>'s dates, column
  \<^verbatim>\<open>A = [10, 20]\<close> and column \<^verbatim>\<open>B = [0, 5]\<close>, padded at the front as the claim says.
  With the same series and the shorter asset first, \<^verbatim>\<open>["B", "A"]\<close>, the claim asks for the
  same padded column of \<^verbatim>\<open>B\<close>; the code pads it, but the index is made of the one date of
  \<^verbatim>\<open>B\<close>, \<^verbatim>\<open>pd.DataFrame\<close> raises \<^verbatim>\<open>ValueError\<close> and there is no table and no padded
  column. The defect is the one of claim C1.
\<close>

theorem shorter_asset_first_has_no_padded_column:
  "get_assets_price_history_pd scenario_session utc_env [''A'', ''B'']
       (Some ''2021-01-01'') (Some ''2021-02-01'') ''close'' ''1d'' []
     = (Inr \<lparr>df_index = [''1970-01-01'', ''1970-01-02''],
              df_columns = [(''A'', [10, 20]), (''B'', [0, 5])]\<rparr>,
        [timeseries_request ''A'' ''price'' (price_params ''close'' ''1d'' ''2021-01-01'' ''2021-02-01''),
         timeseries_request ''B'' ''price'' (price_params ''close'' ''1d'' ''2021-01-01'' ''2021-02-01'')])
   \<and> get_assets_price_history_pd scenario_session utc_env [''B'', ''A'']
       (Some ''2021-01-01'') (Some ''2021-02-01'') ''close'' ''1d'' []
     = (Inl ValueError,
        [timeseries_request ''B'' ''price'' (price_params ''close'' ''1d'' ''2021-01-01'' ''2021-02-01''),
         timeseries_request ''A'' ''price'' (price_params ''close'' ''1d'' ''2021-01-01'' ''2021-02-01'')])"
  by (simp add: pd_after_fetch [OF scenario_asset_data_AB] pd_after_fetch [OF scenario_asset_data_BA]
      scenario_float64 scenario_align reversed_align)

text \<open>
  Claim C8. When the fetched series all have the same length \<open>n\<close>, no padding takes place:
  in every table returned, the row count is \<open>n\<close> and the column of an asset is exactly the
  list of the values of its series, each value at its position; with pairwise distinct asset
  keys the columns are the value columns in the order of the asset list. A table is
  returned whenever there is an asset, \<open>n\<close> is positive and the dates of the first series
  can be formatted.
\<close>

theorem equal_length_series_unpadded:
  fixes sess :: "('f, 'v::zero) session"
  assumes fetch: "asset_data sess e assets start_date end_date columns interval sent
                    = (Inr series, sent')"
    and eq: "\<forall>s \<in> set series. length s = n"
  shows "(\<forall>df. fst (get_assets_price_history_pd sess e assets start_date end_date columns
                   interval sent) = Inr df \<longrightarrow>
            length (df_index df) = n
          \<and> set (df_columns df) = (\<lambda>(k, s). (k, map snd s)) ` set (zip assets series)
          \<and> (distinct assets \<longrightarrow> df_columns df = zip assets (map (map snd) series)))
       \<and> (assets \<noteq> [] \<and> 0 < n \<and> format_dates e (map fst (hd series)) = Inr dates \<longrightarrow>
            (\<exists>df. get_assets_price_history_pd sess e assets start_date end_date columns
                    interval sent = (Inr df, sent')
                 \<and> df_index df = dates))"
proof (intro conjI allI impI)
  fix df
  assume res: "fst (get_assets_price_history_pd sess e assets start_date end_date columns
                   interval sent) = Inr df"
  note t = aligned_table [OF fetch res]
  have series: "series = map (\<lambda>k. projr (fst (get_asset_price_history sess e k start_date
                    end_date columns interval []))) assets"
    using fetch by (rule asset_data_functional)
  from t have "series \<noteq> []" by (simp add: series)
  then have hd: "hd series \<in> set series" by simp
  with eq t show rows: "length (df_index df) = n" by simp
  from eq hd have same: "\<forall>s \<in> set series. length s = length (hd series)" by simp
  from t have "df_columns df =
           (if \<forall>s \<in> set series. length s = length (hd series)
            then py_dict (map (\<lambda>(k, s). (k, map snd s)) (zip assets series))
            else pad_columns (float64 sess) (length (df_index df))
                   (py_dict (map (\<lambda>(k, s). (k, map snd s)) (zip assets series))))"
    by blast
  then have cols: "df_columns df
      = py_dict (map (\<lambda>(k, s). (k, map snd s)) (zip assets series))"
    by (simp only: same [THEN Eq_TrueI] if_True)
  show "set (df_columns df) = (\<lambda>(k, s). (k, map snd s)) ` set (zip assets series)"
    unfolding cols by (subst (1 2) series) (rule set_value_columns)
  assume "distinct assets"
  moreover from series have "length series = length assets" by simp
  ultimately have "py_dict (map (\<lambda>(k, s). (k, map snd s)) (zip assets series))
           = map (\<lambda>(k, s). (k, map snd s)) (zip assets series)"
    by (rule distinct_padded_columns)
  then have "df_columns df = map (\<lambda>(k, s). (k, map snd s)) (zip assets series)"
    by (simp only: cols)
  also have "\<dots> = zip assets (map (map snd) series)"
    by (simp add: zip_map2)
  finally show "df_columns df = zip assets (map (map snd) series)" .
next
  assume a: "assets \<noteq> [] \<and> 0 < n \<and> format_dates e (map fst (hd series)) = Inr dates"
  have series: "series = map (\<lambda>k. projr (fst (get_asset_price_history sess e k start_date
                    end_date columns interval []))) assets"
    using fetch by (rule asset_data_functional)
  with a have "series \<noteq> []" by simp
  then have "hd series \<in> set series" by (rule hd_in_set)
  with eq a have "\<forall>s \<in> set series. s \<noteq> [] \<and> length s \<le> length (hd series)" by auto
  with a show "\<exists>df. get_assets_price_history_pd sess e assets start_date end_date columns
                    interval sent = (Inr df, sent') \<and> df_index df = dates"
    using aligned_table_exists [OF fetch] by blast
qed

theorem equal_length_series_unpadded_witness:
  "\<exists>df. get_assets_price_history_pd scenario_session utc_env [''A'', ''C'']
            (Some ''2021-01-01'') (Some ''2021-02-01'') ''close'' ''1d'' []
          = (Inr df,
             [timeseries_request ''A'' ''price''
                (price_params ''close'' ''1d'' ''2021-01-01'' ''2021-02-01''),
              timeseries_request ''C'' ''price''
                (price_params ''close'' ''1d'' ''2021-01-01'' ''2021-02-01'')])
        \<and> df_index df = [''1970-01-01'', ''1970-01-02'']
        \<and> df_columns df = [(''A'', [10, 20]), (''C'', [7, 8])]"
proof -
  have eq: "\<forall>s \<in> set [[(0::int, 10::real), (86400000, 20)], [(0, 7), (86400000, 8)]].
              length s = 2"
    by simp
  note t = equal_length_series_unpadded [OF scenario_asset_data_AC eq,
      where dates = "[''1970-01-01'', ''1970-01-02'']"]
  from t format_dates_two_days obtain df where
    run: "get_assets_price_history_pd scenario_session utc_env [''A'', ''C'']
            (Some ''2021-01-01'') (Some ''2021-02-01'') ''close'' ''1d'' []
          = (Inr df,
             [timeseries_request ''A'' ''price''
                (price_params ''close'' ''1d'' ''2021-01-01'' ''2021-02-01''),
              timeseries_request ''C'' ''price''
                (price_params ''close'' ''1d'' ''2021-01-01'' ''2021-02-01'')])"
    and idx: "df_index df = [''1970-01-01'', ''1970-01-02'']"
    by auto
  from run have "fst (get_assets_price_history_pd scenario_session utc_env [''A'', ''C'']
            (Some ''2021-01-01'') (Some ''2021-02-01'') ''close'' ''1d'' []) = Inr df"
    by simp
  with t have "df_columns df = zip [''A'', ''C''] (map (map snd)
          [[(0::int, 10::real), (86400000, 20)], [(0, 7), (86400000, 8)]])"
    by simp
  then have "df_columns df = [(''A'', [10, 20]), (''C'', [7, 8])]" by simp
  with run idx show ?thesis by blast
qed

section \<open>The keys of the flattened mapping\<close>

lemma distinct_map_of_rev: "distinct (map fst xs) \<Longrightarrow> map_of (rev xs) = map_of xs"
proof (rule ext)
  fix k
  assume d: "distinct (map fst xs)"
  then have d': "distinct (map fst (rev xs))" by (simp add: rev_map [symmetric])
  show "map_of (rev xs) k = map_of xs k"
  proof (cases "map_of xs k")
    case None
    then have "k \<notin> fst ` set xs" by (simp add: map_of_eq_None_iff)
    then have "k \<notin> fst ` set (rev xs)" by simp
    with map_of_eq_None_iff [of "rev xs" k] have "map_of (rev xs) k = None" by blast
    with None show ?thesis by simp
  next
    case (Some v)
    with d have "(k, v) \<in> set xs" by simp
    then have "(k, v) \<in> set (rev xs)" by simp
    with map_of_eq_Some_iff [OF d', of k v] have "map_of (rev xs) k = Some v" by blast
    with Some show ?thesis by simp
  qed
qed

lemma map_of_rev_py_dict: "map_of (rev (py_dict xs)) = map_of (rev xs)"
  by (simp add: distinct_map_of_rev distinct_py_dict map_of_py_dict)

lemma leaf_paths_nonempty: "[] \<notin> fst ` set (leaf_paths d)"
  by (induction d rule: leaf_paths.induct) (auto split: pyval.splits)

lemma join_path_Cons: "p \<noteq> [] \<Longrightarrow> join_path sep (k # p) = k @ sep @ join_path sep p"
  by (cases p) simp_all

lemma map_of_rev_cong:
  "map_of (rev xs) = map_of (rev xs') \<Longrightarrow> map_of (rev ys) = map_of (rev ys')
     \<Longrightarrow> map_of (rev (xs @ ys)) = map_of (rev (xs' @ ys'))"
  by simp

lemma flatten_items_keys:
  "parent_key \<noteq> [] \<Longrightarrow>
   map_of (rev (flatten_items d parent_key sep))
     = map_of (rev (map (\<lambda>(p, v). (parent_key @ sep @ join_path sep p, v)) (leaf_paths d)))"
proof (induction d parent_key sep rule: flatten_items.induct)
  case (1 parent_key sep)
  then show ?case by simp
next
  case (2 k v rest parent_key sep)
  let ?nk = "parent_key @ sep @ k"
  have rest: "map_of (rev (flatten_items rest parent_key sep))
      = map_of (rev (map (\<lambda>(p, v). (parent_key @ sep @ join_path sep p, v)) (leaf_paths rest)))"
    using "2.IH"(2) [OF refl "2.prems"] .
  show ?case
  proof (cases "is_mapping v")
    case True
    then obtain sub where v: "v = PDict sub" by (cases v) (simp_all add: is_mapping_def)
    have sub: "map_of (rev (flatten_items sub ?nk sep))
        = map_of (rev (map (\<lambda>(p, v). (?nk @ sep @ join_path sep p, v)) (leaf_paths sub)))"
      using "2.IH"(1) [OF refl v] "2.prems" by simp
    have keys: "map (\<lambda>(p, v). (?nk @ sep @ join_path sep p, v)) (leaf_paths sub)
        = map (\<lambda>(p, v). (parent_key @ sep @ join_path sep p, v))
            (map (\<lambda>(p, x). (k # p, x)) (leaf_paths sub))"
      using leaf_paths_nonempty [of sub]
      by (auto simp: join_path_Cons image_iff)
    have "map_of (rev (py_dict (flatten_items sub ?nk sep)))
        = map_of (rev (map (\<lambda>(p, v). (parent_key @ sep @ join_path sep p, v))
            (map (\<lambda>(p, x). (k # p, x)) (leaf_paths sub))))"
      by (simp only: map_of_rev_py_dict sub keys)
    note first = this
    have lhs: "flatten_items ((k, v) # rest) parent_key sep
        = py_dict (flatten_items sub ?nk sep) @ flatten_items rest parent_key sep"
      using v "2.prems" by simp
    have rhs: "map (\<lambda>(p, v). (parent_key @ sep @ join_path sep p, v)) (leaf_paths ((k, v) # rest))
        = map (\<lambda>(p, v). (parent_key @ sep @ join_path sep p, v))
            (map (\<lambda>(p, x). (k # p, x)) (leaf_paths sub))
          @ map (\<lambda>(p, v). (parent_key @ sep @ join_path sep p, v)) (leaf_paths rest)"
      using v by simp
    show ?thesis unfolding lhs rhs using first rest by (rule map_of_rev_cong)
  next
    case False
    then have "flatten_items ((k, v) # rest) parent_key sep
        = [(?nk, v)] @ flatten_items rest parent_key sep"
      using "2.prems" by (cases v) (simp_all add: is_mapping_def)
    moreover from False have "leaf_paths ((k, v) # rest) = [([k], v)] @ leaf_paths rest"
      by (cases v) (simp_all add: is_mapping_def)
    ultimately show ?thesis using rest by simp
  qed
qed

lemma flatten_items_keys_top:
  assumes "no_empty_mapping_key d"
  shows "map_of (rev (flatten_items d [] sep))
     = map_of (rev (map (\<lambda>(p, v). (join_path sep p, v)) (leaf_paths d)))"
  using assms
proof (induction d)
  case Nil
  then show ?case by simp
next
  case (Cons x rest)
  obtain k v where x: "x = (k, v)" by (cases x)
  from Cons.prems have "no_empty_mapping_key rest" by (simp add: no_empty_mapping_key_def)
  then have rest: "map_of (rev (flatten_items rest [] sep))
      = map_of (rev (map (\<lambda>(p, v). (join_path sep p, v)) (leaf_paths rest)))"
    by (rule Cons.IH)
  show ?case
  proof (cases "is_mapping v")
    case True
    then obtain sub where v: "v = PDict sub" by (cases v) (simp_all add: is_mapping_def)
    from Cons.prems True x have k: "k \<noteq> []" by (simp add: no_empty_mapping_key_def)
    have keys: "map (\<lambda>(p, v). (k @ sep @ join_path sep p, v)) (leaf_paths sub)
        = map (\<lambda>(p, v). (join_path sep p, v)) (map (\<lambda>(p, x). (k # p, x)) (leaf_paths sub))"
      using leaf_paths_nonempty [of sub]
      by (auto simp: join_path_Cons image_iff)
    have first: "map_of (rev (py_dict (flatten_items sub k sep)))
        = map_of (rev (map (\<lambda>(p, v). (join_path sep p, v))
            (map (\<lambda>(p, x). (k # p, x)) (leaf_paths sub))))"
      by (simp only: map_of_rev_py_dict flatten_items_keys [OF k] keys)
    have lhs: "flatten_items (x # rest) [] sep
        = py_dict (flatten_items sub k sep) @ flatten_items rest [] sep"
      using v x by simp
    have rhs: "map (\<lambda>(p, v). (join_path sep p, v)) (leaf_paths (x # rest))
        = map (\<lambda>(p, v). (join_path sep p, v)) (map (\<lambda>(p, x). (k # p, x)) (leaf_paths sub))
          @ map (\<lambda>(p, v). (join_path sep p, v)) (leaf_paths rest)"
      using v x by simp
    show ?thesis unfolding lhs rhs using first rest by (rule map_of_rev_cong)
  next
    case False
    then have "flatten_items (x # rest) [] sep = [(k, v)] @ flatten_items rest [] sep"
      using x by (cases v) (simp_all add: is_mapping_def)
    moreover from False have "leaf_paths (x # rest) = [([k], v)] @ leaf_paths rest"
      using x by (cases v) (simp_all add: is_mapping_def)
    ultimately show ?thesis using rest by simp
  qed
qed

lemma map_of_flatten:
  assumes "no_empty_mapping_key d"
  shows "map_of (flatten d [] sep)
     = map_of (rev (map (\<lambda>(p, v). (join_path sep p, v)) (leaf_paths d)))"
  using flatten_items_keys_top [OF assms] by (simp add: flatten_def map_of_py_dict)

lemma leaf_paths_not_mapping: "\<forall>x \<in> set (leaf_paths d). \<not> is_mapping (snd x)"
  by (induction d rule: leaf_paths.induct) (fastforce simp: is_mapping_def split: pyval.splits)+

text \<open>
  Claim C7, as stated, fails when two leaves have the same joined key path: in
  \<^verbatim>\<open>{"a_b": 1, "a": {"b": 2}}\<close> the value 1 is not a mapping and its key path joins to
  \<^verbatim>\<open>a_b\<close>, but the flattened output binds \<^verbatim>\<open>a_b\<close> to 2, the value of the later leaf.
\<close>

theorem colliding_key_paths_counterexample:
  "leaf_paths [(''a_b'', PInt 1), (''a'', PDict [(''b'', PInt 2 :: real pyval)])]
       = [([''a_b''], PInt 1), ([''a'', ''b''], PInt 2)]
   \<and> join_path ''_'' [''a_b''] = ''a_b''
   \<and> flatten [(''a_b'', PInt 1), (''a'', PDict [(''b'', PInt 2 :: real pyval)])] [] ''_''
       = [(''a_b'', PInt 2)]"
  by (simp add: flatten_def py_dict_def)

text \<open>
  Claim C7, amended. In a mapping that stores no mapping under an empty top-level key, every
  value that is not a mapping, an empty list or an empty string included, is a leaf: its
  separator-joined key path is a key of the flattened output, and it is bound to that value
  unless a leaf later in the traversal has the same joined key path. The leaves are listed
  by \<open>leaf_paths\<close>; \<open>before\<close> and \<open>after\<close> are the leaves on either side of the one
  considered.
\<close>

theorem leaf_key_path_bound:
  assumes "no_empty_mapping_key d"
    and "leaf_paths d = before @ (p, v) # after"
    and "join_path sep p \<notin> (\<lambda>(q, w). join_path sep q) ` set after"
  shows "\<not> is_mapping v \<and> map_of (flatten d [] sep) (join_path sep p) = Some v"
proof -
  have "map_of (rev (map (\<lambda>(p, v). (join_path sep p, v)) after)) (join_path sep p) = None"
    using assms(3) by (simp add: map_of_eq_None_iff image_image case_prod_beta)
  then have "map_of (flatten d [] sep) (join_path sep p) = Some v"
    by (simp add: map_of_flatten [OF assms(1)] assms(2) map_add_def)
  moreover have "\<not> is_mapping v"
    using leaf_paths_not_mapping [of d] assms(2) by simp
  ultimately show ?thesis by simp
qed

theorem leaf_key_path_bound_witness:
  "map_of (flatten [(''a'', PDict [(''b'', PList []), (''c'', PInt 1)]), (''d'', PStr ''''),
                    (''a_c'', PNone :: real pyval)] [] ''_'') ''a_b'' = Some (PList [])
   \<and> map_of (flatten [(''a'', PDict [(''b'', PList []), (''c'', PInt 1)]), (''d'', PStr ''''),
                    (''a_c'', PNone :: real pyval)] [] ''_'') ''a_c'' = Some PNone"
proof -
  let ?d = "[(''a'', PDict [(''b'', PList []), (''c'', PInt 1)]), (''d'', PStr ''''),
             (''a_c'', PNone :: real pyval)]"
  have ok: "no_empty_mapping_key ?d" by (simp add: no_empty_mapping_key_def)
  have l1: "leaf_paths ?d = [] @ ([''a'', ''b''], PList [])
      # [([''a'', ''c''], PInt 1), ([''d''], PStr ''''), ([''a_c''], PNone)]"
    by simp
  have l2: "leaf_paths ?d = [([''a'', ''b''], PList []), ([''a'', ''c''], PInt 1), ([''d''], PStr '''')]
      @ ([''a_c''], PNone) # []"
    by simp
  from leaf_key_path_bound [OF ok l1, of "''_''"] leaf_key_path_bound [OF ok l2, of "''_''"]
  show ?thesis by simp
qed

section \<open>Flattening and re-nesting\<close>

lemma split_on_nonempty: "split_on c s \<noteq> []"
  by (induction s) (auto split: list.splits)

lemma split_on_free: "c \<notin> set k \<Longrightarrow> split_on c k = [k]"
  by (induction k) auto

lemma split_on_append: "split_on c (a @ c # b) = split_on c a @ split_on c b"
proof (induction a)
  case Nil
  then show ?case by simp
next
  case (Cons x xs)
  obtain p ps where "split_on c xs = p # ps"
    using split_on_nonempty [of c xs] by (cases "split_on c xs") auto
  with Cons show ?case by simp
qed

lemma split_join:
  "p \<noteq> [] \<Longrightarrow> \<forall>k \<in> set p. c \<notin> set k \<Longrightarrow> split_on c (join_path [c] p) = p"
proof (induction "[c]" p rule: join_path.induct)
  case 1
  then show ?case by simp
next
  case (2 k)
  then show ?case by (simp add: split_on_free)
next
  case (3 k k' ks)
  then show ?case by (simp add: split_on_append split_on_free)
qed

lemma leaf_paths_head:
  "\<forall>x \<in> set (leaf_paths d). fst x \<noteq> [] \<and> hd (fst x) \<in> fst ` set d"
  by (induction d rule: leaf_paths.induct) (fastforce split: pyval.splits)+

lemma leaf_paths_free:
  "mapping_ok c d \<Longrightarrow> \<forall>x \<in> set (leaf_paths d). \<forall>k \<in> set (fst x). c \<notin> set k"
  by (induction d rule: leaf_paths.induct) (fastforce split: pyval.splits)+

lemma leaf_paths_exist: "mapping_ok c d \<Longrightarrow> d \<noteq> [] \<Longrightarrow> leaf_paths d \<noteq> []"
  by (induction d rule: leaf_paths.induct) (auto split: pyval.splits)

lemma leaf_paths_distinct: "mapping_ok c d \<Longrightarrow> distinct (map fst (leaf_paths d))"
proof (induction d rule: leaf_paths.induct)
  case 1
  then show ?case by simp
next
  case (2 k v rest)
  from "2.prems" have rest_ok: "mapping_ok c rest" and fresh: "k \<notin> fst ` set rest" by simp_all
  from "2.IH"(2) rest_ok have d_rest: "distinct (map fst (leaf_paths rest))" by simp
  have heads: "\<forall>x \<in> set (leaf_paths rest). fst x \<noteq> [] \<and> hd (fst x) \<noteq> k"
    using leaf_paths_head [of rest] fresh by fastforce
  show ?case
  proof (cases v)
    case (PDict sub)
    with "2.prems" have "mapping_ok c sub" by simp
    with "2.IH"(1) PDict have "distinct (map fst (leaf_paths sub))" by simp
    then have "distinct (map fst (map (\<lambda>(p, x). (k # p, x)) (leaf_paths sub)))"
      by (simp add: distinct_map comp_def case_prod_beta inj_on_def)
    moreover have "set (map fst (map (\<lambda>(p, x). (k # p, x)) (leaf_paths sub)))
        \<inter> set (map fst (leaf_paths rest)) = {}"
      using heads by (fastforce simp: case_prod_beta)
    ultimately show ?thesis using PDict d_rest by simp
  qed (use d_rest heads in \<open>fastforce+\<close>)
qed

lemma joined_keys_distinct:
  assumes d: "distinct (map fst L)"
    and good: "\<forall>x \<in> set L. fst x \<noteq> [] \<and> (\<forall>k \<in> set (fst x). c \<notin> set k)"
  shows "distinct (map fst (map (\<lambda>(p, v). (pre @ join_path [c] p, v)) L))"
proof -
  have inj: "inj_on (\<lambda>x. pre @ join_path [c] (fst x)) (set L)"
  proof (rule inj_onI)
    fix x y
    assume x: "x \<in> set L" and y: "y \<in> set L"
      and eq: "pre @ join_path [c] (fst x) = pre @ join_path [c] (fst y)"
    from eq have "split_on c (join_path [c] (fst x)) = split_on c (join_path [c] (fst y))"
      by simp
    with good x y have "fst x = fst y" by (simp add: split_join)
    with d x y show "x = y" by (cases x, cases y) (auto dest: eq_key_imp_eq_value)
  qed
  have keys: "map fst (map (\<lambda>(p, v). (pre @ join_path [c] p, v)) L)
      = map (\<lambda>x. pre @ join_path [c] (fst x)) L"
    by (simp add: comp_def case_prod_beta)
  from d have "distinct L" by (simp add: distinct_map)
  with inj have "distinct (map (\<lambda>x. pre @ join_path [c] (fst x)) L)"
    by (simp add: distinct_map)
  then show ?thesis by (simp only: keys)
qed

lemma leaf_paths_good:
  assumes "mapping_ok c d"
  shows "\<forall>x \<in> set (leaf_paths d). fst x \<noteq> [] \<and> (\<forall>k \<in> set (fst x). c \<notin> set k)"
  using leaf_paths_head [of d] leaf_paths_free [OF assms] by blast

lemma py_dict_joined:
  assumes "mapping_ok c d"
  shows "py_dict (map (\<lambda>(p, v). (pre @ join_path [c] p, v)) (leaf_paths d))
           = map (\<lambda>(p, v). (pre @ join_path [c] p, v)) (leaf_paths d)"
  by (rule py_dict_distinct)
     (rule joined_keys_distinct [OF leaf_paths_distinct [OF assms] leaf_paths_good [OF assms]])

lemma prefixed_keys:
  "map (\<lambda>(p, v). ((pre @ k) @ [c] @ join_path [c] p, v)) (leaf_paths sub)
     = map (\<lambda>(p, v). (pre @ join_path [c] p, v)) (map (\<lambda>(p, x). (k # p, x)) (leaf_paths sub))"
  using leaf_paths_nonempty [of sub]
  by (auto simp: join_path_Cons image_iff)

lemma flatten_items_exact:
  "mapping_ok c d \<Longrightarrow> parent_key \<noteq> [] \<Longrightarrow>
   flatten_items d parent_key [c]
     = map (\<lambda>(p, v). ((parent_key @ [c]) @ join_path [c] p, v)) (leaf_paths d)"
proof (induction d parent_key "[c]" rule: flatten_items.induct)
  case (1 parent_key)
  then show ?case by simp
next
  case (2 k v rest parent_key)
  let ?nk = "parent_key @ [c] @ k"
  from "2.prems" have rest_ok: "mapping_ok c rest" by simp
  have rest: "flatten_items rest parent_key [c]
      = map (\<lambda>(p, v). ((parent_key @ [c]) @ join_path [c] p, v)) (leaf_paths rest)"
    using "2.hyps"(2) [OF refl rest_ok "2.prems"(2)] .
  show ?case
  proof (cases v)
    case (PDict sub)
    with "2.prems" have sub_ok: "mapping_ok c sub" by simp
    have "flatten_items sub ?nk [c]
        = map (\<lambda>(p, v). ((?nk @ [c]) @ join_path [c] p, v)) (leaf_paths sub)"
      using "2.hyps"(1) [OF refl PDict] sub_ok "2.prems"(2) by simp
    then have "py_dict (flatten_items sub ?nk [c])
        = map (\<lambda>(p, v). ((?nk @ [c]) @ join_path [c] p, v)) (leaf_paths sub)"
      by (simp only: py_dict_joined [OF sub_ok])
    also have "\<dots> = map (\<lambda>(p, v). (((parent_key @ [c]) @ k) @ [c] @ join_path [c] p, v)) (leaf_paths sub)"
      by simp
    also have "\<dots> = map (\<lambda>(p, v). ((parent_key @ [c]) @ join_path [c] p, v))
        (map (\<lambda>(p, x). (k # p, x)) (leaf_paths sub))"
      by (rule prefixed_keys)
    finally show ?thesis using PDict rest "2.prems"(2) by simp
  qed (use rest "2.prems"(2) in simp_all)
qed

lemma flatten_items_exact_top:
  "mapping_ok c d \<Longrightarrow> no_empty_mapping_key d \<Longrightarrow>
   flatten_items d [] [c] = map (\<lambda>(p, v). (join_path [c] p, v)) (leaf_paths d)"
proof (induction d)
  case Nil
  then show ?case by simp
next
  case (Cons x rest)
  obtain k v where x: "x = (k, v)" by (cases x)
  from Cons.prems x have rest_ok: "mapping_ok c rest" "no_empty_mapping_key rest"
    by (simp_all add: no_empty_mapping_key_def)
  then have rest: "flatten_items rest [] [c]
      = map (\<lambda>(p, v). (join_path [c] p, v)) (leaf_paths rest)"
    by (rule Cons.IH)
  show ?case
  proof (cases v)
    case (PDict sub)
    with Cons.prems x have sub_ok: "mapping_ok c sub" and k: "k \<noteq> []"
      by (simp_all add: no_empty_mapping_key_def is_mapping_def)
    have "py_dict (flatten_items sub k [c])
        = map (\<lambda>(p, v). ((k @ [c]) @ join_path [c] p, v)) (leaf_paths sub)"
      by (simp only: flatten_items_exact [OF sub_ok k] py_dict_joined [OF sub_ok])
    also have "\<dots> = map (\<lambda>(p, v). (([] @ k) @ [c] @ join_path [c] p, v)) (leaf_paths sub)"
      by simp
    also have "\<dots> = map (\<lambda>(p, v). ([] @ join_path [c] p, v))
        (map (\<lambda>(p, x). (k # p, x)) (leaf_paths sub))"
      by (rule prefixed_keys)
    finally show ?thesis using PDict rest x by simp
  qed (use rest x in simp_all)
qed

lemma flatten_exact:
  assumes "mapping_ok c d" and "no_empty_mapping_key d"
  shows "flatten d [] [c] = map (\<lambda>(p, v). (join_path [c] p, v)) (leaf_paths d)"
  using py_dict_joined [OF assms(1), of "[]"] flatten_items_exact_top [OF assms]
  by (simp add: flatten_def)

lemma unflatten_paths:
  "\<forall>x \<in> set L. fst x \<noteq> [] \<and> (\<forall>k \<in> set (fst x). c \<notin> set k) \<Longrightarrow>
   foldl (\<lambda>out (key, v). nest_insert (split_on c key) v out) acc
       (map (\<lambda>(p, v). (join_path [c] p, v)) L)
     = foldl (\<lambda>out (p, v). nest_insert p v out) acc L"
proof (induction L arbitrary: acc)
  case Nil
  then show ?case by simp
next
  case (Cons x L)
  obtain p v where x: "x = (p, v)" by (cases x)
  from Cons.prems x have "split_on c (join_path [c] p) = p" by (simp add: split_join)
  with Cons x show ?case by simp
qed

lemma update_last: "k \<notin> fst ` set acc \<Longrightarrow> AList.update k v (acc @ [(k, w)]) = acc @ [(k, v)]"
  by (induction acc) auto

lemma map_of_last: "k \<notin> fst ` set acc \<Longrightarrow> map_of (acc @ [(k, w)]) k = Some w"
  by (induction acc) auto

lemma map_of_fresh: "k \<notin> fst ` set acc \<Longrightarrow> map_of acc k = None"
  by (simp add: map_of_eq_None_iff)

lemma nest_insert_under:
  assumes "k \<notin> fst ` set acc" and "p \<noteq> []"
  shows "nest_insert (k # p) v (acc @ [(k, PDict s)]) = acc @ [(k, PDict (nest_insert p v s))]"
proof -
  from assms(2) obtain k' ks where p: "p = k' # ks" by (cases p) auto
  show ?thesis unfolding p
    by (simp add: map_of_last [OF assms(1)] update_last [OF assms(1)] del: map_of_append)
qed

lemma nest_insert_new:
  assumes "k \<notin> fst ` set acc" and "p \<noteq> []"
  shows "nest_insert (k # p) v acc = acc @ [(k, PDict (nest_insert p v []))]"
proof -
  from assms(2) obtain k' ks where p: "p = k' # ks" by (cases p) auto
  show ?thesis unfolding p
    by (simp add: map_of_fresh [OF assms(1)] update_fresh [OF assms(1)])
qed

lemma insert_leaves_under:
  assumes "k \<notin> fst ` set acc"
  shows "\<forall>x \<in> set L. fst x \<noteq> [] \<Longrightarrow>
    foldl (\<lambda>out (p, v). nest_insert p v out) (acc @ [(k, PDict s)])
        (map (\<lambda>(p, x). (k # p, x)) L)
      = acc @ [(k, PDict (foldl (\<lambda>out (p, v). nest_insert p v out) s L))]"
proof (induction L arbitrary: s)
  case Nil
  then show ?case by simp
next
  case (Cons x L)
  obtain p v where x: "x = (p, v)" by (cases x)
  from Cons.prems x have p: "p \<noteq> []" by simp
  from Cons.prems have "\<forall>x \<in> set L. fst x \<noteq> []" by simp
  from Cons.IH [OF this, of "nest_insert p v s"] x show ?case
    by (simp add: nest_insert_under [OF assms p])
qed

lemma insert_leaves_new:
  assumes "k \<notin> fst ` set acc" and "L \<noteq> []" and "\<forall>x \<in> set L. fst x \<noteq> []"
  shows "foldl (\<lambda>out (p, v). nest_insert p v out) acc (map (\<lambda>(p, x). (k # p, x)) L)
      = acc @ [(k, PDict (foldl (\<lambda>out (p, v). nest_insert p v out) [] L))]"
proof -
  from assms(2) obtain x L' where L: "L = x # L'" by (cases L) auto
  obtain p v where x: "x = (p, v)" by (cases x)
  from assms(3) L x have p: "p \<noteq> []" and rest: "\<forall>x \<in> set L'. fst x \<noteq> []" by simp_all
  show ?thesis unfolding L x
    using insert_leaves_under [OF assms(1) rest, of "nest_insert p v []"]
    by (simp add: nest_insert_new [OF assms(1) p])
qed

lemma rebuild:
  "mapping_ok c d \<Longrightarrow> fst ` set acc \<inter> fst ` set d = {} \<Longrightarrow>
   foldl (\<lambda>out (p, v). nest_insert p v out) acc (leaf_paths d) = acc @ d"
proof (induction d arbitrary: acc rule: leaf_paths.induct)
  case 1
  then show ?case by simp
next
  case (2 k v rest)
  from "2.prems" have rest_ok: "mapping_ok c rest" and fresh_rest: "k \<notin> fst ` set rest"
    and fresh: "k \<notin> fst ` set acc" and disj: "fst ` set acc \<inter> fst ` set rest = {}"
    by auto
  from fresh_rest disj have disj': "fst ` set (acc @ [(k, v)]) \<inter> fst ` set rest = {}"
    by auto
  have rest: "foldl (\<lambda>out (p, v). nest_insert p v out) (acc @ [(k, v)]) (leaf_paths rest)
      = (acc @ [(k, v)]) @ rest"
    using "2.IH"(2) [OF rest_ok disj'] .
  show ?case
  proof (cases v)
    case (PDict sub)
    with "2.prems" have sub_ok: "mapping_ok c sub" and sub_ne: "sub \<noteq> []" by simp_all
    have leaves: "leaf_paths sub \<noteq> []" using sub_ok sub_ne by (rule leaf_paths_exist)
    have ne: "\<forall>x \<in> set (leaf_paths sub). fst x \<noteq> []"
      using leaf_paths_head [of sub] by blast
    have "foldl (\<lambda>out (p, v). nest_insert p v out) [] (leaf_paths sub) = [] @ sub"
      using "2.IH"(1) [OF PDict sub_ok] by simp
    with insert_leaves_new [OF fresh leaves ne]
    have "foldl (\<lambda>out (p, v). nest_insert p v out) acc
        (map (\<lambda>(p, x). (k # p, x)) (leaf_paths sub)) = acc @ [(k, v)]"
      by (simp add: PDict)
    with rest PDict show ?thesis by simp
  qed (use rest fresh in \<open>simp_all add: update_fresh\<close>)
qed

text \<open>
  Claim C2, as stated, fails on a mapping that holds an empty mapping: \<^verbatim>\<open>{"a": {}}\<close> has
  no key with the separator in it, its flattening is empty, since the empty mapping is
  traversed and has no leaf, and re-nesting the empty mapping gives \<^verbatim>\<open>{}\<close>.
\<close>

theorem empty_nested_mapping_counterexample:
  "CHR ''_'' \<notin> set ''a''
   \<and> flatten [(''a'', PDict [] :: real pyval)] [] ''_'' = []
   \<and> unflatten CHR ''_'' (flatten [(''a'', PDict [] :: real pyval)] [] ''_'')
        \<noteq> [(''a'', PDict [])]"
  by (simp add: flatten_def py_dict_def unflatten_def)

text \<open>
  Claim C2, amended. For every nested mapping in which no key contains the separator
  character, no mapping inside is empty and no mapping is stored under an empty top-level
  key, flattening and then re-nesting by splitting each flattened key on the separator gives
  back the original mapping, with the entries in their original order. (A value of the
  datatype is a finite tree, so the structure is acyclic; \<open>mapping_ok\<close> also says that keys
  are distinct at every level, as in any dictionary.)
\<close>

theorem flatten_roundtrip:
  assumes "mapping_ok c d" and "no_empty_mapping_key d"
  shows "unflatten c (flatten d [] [c]) = d"
proof -
  have "unflatten c (flatten d [] [c])
      = foldl (\<lambda>out (p, v). nest_insert p v out) [] (leaf_paths d)"
    unfolding unflatten_def flatten_exact [OF assms]
    by (rule unflatten_paths) (rule leaf_paths_good [OF assms(1)])
  also have "\<dots> = [] @ d" by (rule rebuild [OF assms(1)]) simp
  finally show ?thesis by simp
qed

theorem flatten_roundtrip_witness:
  "unflatten CHR ''_'' (flatten
      [(''a'', PDict [(''b'', PList []), (''c'', PDict [(''x'', PInt 1), ('''', PBool True)])]),
       (''d'', PStr ''''), ('''', PNone :: real pyval)] [] ''_'')
   = [(''a'', PDict [(''b'', PList []), (''c'', PDict [(''x'', PInt 1), ('''', PBool True)])]),
      (''d'', PStr ''''), ('''', PNone)]"
  by (rule flatten_roundtrip) (simp_all add: no_empty_mapping_key_def is_mapping_def)

end
